theory Spec2Isabelle
  imports Main "HOL-Library.Char_ord" "HOL-Library.List_Lexorder"
begin

section \<open>Strings\<close>

text \<open>
  JavaScript strings are modelled as \<^typ>\<open>string\<close> (lists of 8-bit characters), so the
  model covers ASCII text: \<open>toLowerCase\<close> maps the letters \<open>A\<close>..\<open>Z\<close> to \<open>a\<close>..\<open>z\<close> and
  leaves every other character alone. \<open>String.prototype.includes\<close> is the substring
  test; \<open>startsWith\<close> is what the anchored regular expressions \<open>/^literal/\<close> of the
  client test.
\<close>

definition toLowerChar :: "char \<Rightarrow> char" where
  "toLowerChar c =
     (case map_of (zip ''ABCDEFGHIJKLMNOPQRSTUVWXYZ'' ''abcdefghijklmnopqrstuvwxyz'') c of
        Some l \<Rightarrow> l
      | None \<Rightarrow> c)"

definition toLowerCase :: "string \<Rightarrow> string" where
  "toLowerCase s = map toLowerChar s"

definition startsWith :: "string \<Rightarrow> string \<Rightarrow> bool" where
  "startsWith s p = (take (length p) s = p)"

fun str_includes :: "string \<Rightarrow> string \<Rightarrow> bool" where
  "str_includes [] p = (p = [])"
| "str_includes (c # cs) p = (startsWith (c # cs) p \<or> str_includes cs p)"

section \<open>Authentication-error classifier\<close>

text \<open>
  \<open>isAuthError\<close> of \<open>mcp-client.ts\<close>: the text is lowercased once and tested against
  thirteen literals, in the order of the source.
\<close>

definition isAuthError :: "string \<Rightarrow> bool" where
  "isAuthError text =
     (let lower = toLowerCase text in
        str_includes lower ''no valid token'' \<or>
        str_includes lower ''token expired'' \<or>
        str_includes lower ''unauthorized'' \<or>
        str_includes lower ''401'' \<or>
        str_includes lower ''invalid_grant'' \<or>
        str_includes lower ''interaction_required'' \<or>
        str_includes lower ''login required'' \<or>
        str_includes lower ''unauthenticated'' \<or>
        str_includes lower ''invalidauthenticationtoken'' \<or>
        str_includes lower ''lifetimevalidationfailed'' \<or>
        str_includes lower ''compacttoken'' \<or>
        str_includes lower ''authorization_identitynotfound'' \<or>
        str_includes lower ''silent token acquisition failed'')"

text \<open>The vocabulary the specification speaks of: the literals of the classifier.\<close>

definition authVocabulary :: "string list" where
  "authVocabulary =
     [''no valid token'', ''token expired'', ''unauthorized'', ''401'', ''invalid_grant'',
      ''interaction_required'', ''login required'', ''unauthenticated'',
      ''invalidauthenticationtoken'', ''lifetimevalidationfailed'', ''compacttoken'',
      ''authorization_identitynotfound'', ''silent token acquisition failed'']"

section \<open>Values, objects and the response envelope\<close>

text \<open>
  The argument objects of the client hold numbers and strings; a field may be present with
  the value \<open>undefined\<close> (the command handlers pass \<open>{ top, skip, filter, orderBy }\<close> with
  the unset flags undefined). An object is the list of its fields in insertion order, with
  distinct keys. Numbers are integers (the flags are validated as integers).
\<close>

datatype jsval = JUndefined | JNum int | JStr string

type_synonym obj = "(string \<times> jsval) list"

fun truthy :: "jsval \<Rightarrow> bool" where
  "truthy JUndefined = False"
| "truthy (JNum n) = (n \<noteq> 0)"
| "truthy (JStr s) = (s \<noteq> [])"

text \<open>\<open>options?.k\<close>: the field, or \<open>undefined\<close> when the object has none (or is itself absent,
  which the model writes as the empty object).\<close>

definition field :: "obj \<Rightarrow> string \<Rightarrow> jsval" where
  "field options k = (case map_of options k of Some v \<Rightarrow> v | None \<Rightarrow> JUndefined)"

text \<open>\<open>args.k = v\<close>: an existing field keeps its place, a new one goes last.\<close>

fun assign :: "string \<Rightarrow> jsval \<Rightarrow> obj \<Rightarrow> obj" where
  "assign k v [] = [(k, v)]"
| "assign k v ((k', v') # rest) =
     (if k' = k then (k, v) # rest else (k', v') # assign k v rest)"

text \<open>\<open>{ ...base, ...options }\<close>: every own field of \<open>options\<close> is assigned in turn,
  undefined ones included.\<close>

definition spread :: "obj \<Rightarrow> obj \<Rightarrow> obj" where
  "spread base options = foldl (\<lambda>acc (k, v). assign k v acc) base options"

text \<open>\<open>if (options?.k) args.k = options.k\<close>.\<close>

definition assignIfTruthy :: "obj \<Rightarrow> string \<Rightarrow> obj \<Rightarrow> obj" where
  "assignIfTruthy options k args =
     (if truthy (field options k) then assign k (field options k) args else args)"

text \<open>\<open>if (x) args.k = x\<close> for an optional positional parameter \<open>x\<close>.\<close>

definition assignParamIfTruthy :: "string \<Rightarrow> jsval \<Rightarrow> obj \<Rightarrow> obj" where
  "assignParamIfTruthy k x args = (if truthy x then assign k x args else args)"

text \<open>What \<open>JSON.parse\<close> returns. \<open>parsed?.k\<close> is defined only on an object that has the field.\<close>

datatype json =
    JNull | JBool bool | JNumber int | JString string
  | JArray "json list" | JObject "(string \<times> json) list"

fun json_prop :: "json \<Rightarrow> string \<Rightarrow> json option" where
  "json_prop (JObject fields) k = map_of fields k"
| "json_prop _ k = None"

text \<open>The tool response envelope \<open>{isError, content: [{type, text?}]}\<close>.\<close>

record content_item =
  item_type :: string
  item_text :: "string option"

record response =
  isError :: bool
  content :: "content_item list"

text \<open>\<open>content.find(c => c.type === "text")?.text\<close>.\<close>

definition findText :: "content_item list \<Rightarrow> string option" where
  "findText items =
     (case find (\<lambda>c. item_type c = ''text'') items of
        None \<Rightarrow> None
      | Some c \<Rightarrow> item_text c)"

text \<open>\<open>x || d\<close> on an optional string: the default replaces \<open>undefined\<close> and the empty string.\<close>

definition orElse :: "string option \<Rightarrow> string \<Rightarrow> string" where
  "orElse x d = (case x of None \<Rightarrow> d | Some t \<Rightarrow> if t = [] then d else t)"

text \<open>A thrown \<open>Error\<close> carries its message. What \<open>callTool\<close> resolves to is the parsed JSON
  value, the raw text, or the raw content list.\<close>

datatype error = Error string

fun message :: "error \<Rightarrow> string" where
  "message (Error m) = m"

datatype tool_value = Parsed json | Text string | Content "content_item list"

section \<open>The cache library\<close>

text \<open>
  Modelled from the spec: the package \<open>@local/plugin-cache\<close> (\<open>PluginCache\<close>, \<open>TTL\<close>,
  \<open>createCacheKey\<close>) is imported by \<open>mcp-client.ts\<close> and is not among the sources. Section
  4.3 of the specification gives its contract: a key-to-value store with a TTL per entry,
  an entry being fresh while \<open>now < createdAt + ttl\<close>; \<open>invalidate\<close> removes one entry,
  \<open>invalidatePattern\<close> every entry whose key matches; a global enable/disable toggle. The
  three TTL tiers are 5 minutes, 15 minutes and 1 hour (section 4.4), here in milliseconds.
  The hit/miss statistics are left out.
\<close>

datatype ttl_tier = FIVE_MINUTES | FIFTEEN_MINUTES | HOUR

fun ttl_ms :: "ttl_tier \<Rightarrow> nat" where
  "ttl_ms FIVE_MINUTES = 300000"
| "ttl_ms FIFTEEN_MINUTES = 900000"
| "ttl_ms HOUR = 3600000"

record cache_entry =
  entry_value :: tool_value
  entry_createdAt :: nat
  entry_ttl :: nat

record plugin_cache =
  entries :: "string \<Rightarrow> cache_entry option"
  enabled :: bool

definition emptyCache :: plugin_cache where
  "emptyCache = \<lparr>entries = (\<lambda>k. None), enabled = True\<rparr>"

definition fresh :: "nat \<Rightarrow> cache_entry \<Rightarrow> bool" where
  "fresh now e = (now < entry_createdAt e + entry_ttl e)"

definition store :: "string \<Rightarrow> tool_value \<Rightarrow> nat \<Rightarrow> nat \<Rightarrow> plugin_cache \<Rightarrow> plugin_cache" where
  "store key v now ttl c =
     c\<lparr>entries := (entries c)(key \<mapsto> \<lparr>entry_value = v, entry_createdAt = now, entry_ttl = ttl\<rparr>)\<rparr>"

definition invalidate :: "string \<Rightarrow> plugin_cache \<Rightarrow> plugin_cache" where
  "invalidate key c = c\<lparr>entries := (entries c)(key := None)\<rparr>"

text \<open>Every pattern of the client is an anchored literal \<open>/^literal/\<close>, so a pattern is
  given by its literal and matches the keys that start with it.\<close>

definition invalidatePattern :: "string \<Rightarrow> plugin_cache \<Rightarrow> plugin_cache" where
  "invalidatePattern literal c =
     c\<lparr>entries := (\<lambda>k. if startsWith k literal then None else entries c k)\<rparr>"

definition disable :: "plugin_cache \<Rightarrow> plugin_cache" where
  "disable c = c\<lparr>enabled := False\<rparr>"

definition enable :: "plugin_cache \<Rightarrow> plugin_cache" where
  "enable c = c\<lparr>enabled := True\<rparr>"

text \<open>
  Modelled from the spec: \<open>createCacheKey\<close> of \<open>@local/plugin-cache\<close>. Section 4.3: a key is
  derived deterministically from an operation name and a normalized argument object, with
  stable key ordering and undefined fields omitted. The model writes the operation name
  first and then one \<open>:name=value\<close> part per defined field, fields sorted by name.
\<close>

fun digit :: "nat \<Rightarrow> char" where
  "digit n = (''0123456789'' ! (n mod 10))"

fun decimal :: "nat \<Rightarrow> string" where
  "decimal n = (if n < 10 then [digit n] else decimal (n div 10) @ [digit n])"

fun render :: "jsval \<Rightarrow> string" where
  "render JUndefined = ''undefined''"
| "render (JNum n) = (if n < 0 then ''-'' @ decimal (nat (- n)) else decimal (nat n))"
| "render (JStr s) = s"

definition normalize :: "obj \<Rightarrow> obj" where
  "normalize params = sort_key fst (filter (\<lambda>(k, v). v \<noteq> JUndefined) params)"

definition createCacheKey :: "string \<Rightarrow> obj \<Rightarrow> string" where
  "createCacheKey operation params =
     operation @ concat (map (\<lambda>(k, v). '':'' @ k @ ''='' @ render v) (normalize params))"

section \<open>The client: state and environment\<close>

text \<open>
  The MCP server, its transport and \<open>JSON.parse\<close> are outside the repository; the model
  takes them as an environment. \<open>handshake n\<close> is how the \<open>n\<close>-th
  \<open>client.connect(transport)\<close> ends (\<open>None\<close>: it resolves), \<open>respond n name args\<close> is how the
  \<open>n\<close>-th request sent through the SDK client ends (rejected, or a response envelope), and
  \<open>JSON_parse\<close> returns \<open>None\<close> where \<open>JSON.parse\<close> throws.
\<close>

record env =
  handshake :: "nat \<Rightarrow> error option"
  respond :: "nat \<Rightarrow> string \<Rightarrow> obj \<Rightarrow> error + response"
  JSON_parse :: "string \<Rightarrow> json option"

text \<open>
  The fields of \<open>OutlookMCPClient\<close>, the module-level \<open>cache\<close>, and three ghost fields:
  \<open>spawned\<close> counts the transports created by \<open>doConnect\<close>, \<open>requests\<close> logs what was sent
  through the SDK client, \<open>facadeCalls\<close> logs the invocations of \<open>callTool\<close>.
  \<open>sdkClient\<close> stands for \<open>this.client\<close> and \<open>this.transport\<close>. In this part of the model a
  caller awaits every method before the next one starts (as the command handlers do), so a
  stored \<open>connectPromise\<close> is a settled promise, given by its outcome.
\<close>

record client =
  sdkClient :: "nat option"
  connected :: bool
  connectPromise :: "(error + unit) option"
  cacheDisabled :: bool
  skipAuthCheck :: bool
  cache :: plugin_cache
  spawned :: nat
  requests :: "(string \<times> obj) list"
  facadeCalls :: "(string \<times> obj) list"

type_synonym 'a io = "client \<Rightarrow> (error + 'a) \<times> client"

definition newClient :: "plugin_cache \<Rightarrow> client" where
  "newClient c =
     \<lparr>sdkClient = None, connected = False, connectPromise = None, cacheDisabled = False,
      skipAuthCheck = False, cache = c, spawned = 0, requests = [], facadeCalls = []\<rparr>"

text \<open>\<open>const v = await m; k(v)\<close>: a rejected \<open>m\<close> throws past the rest.\<close>

definition await :: "'a io \<Rightarrow> ('a \<Rightarrow> 'b io) \<Rightarrow> 'b io" where
  "await m k s = (case m s of (Inl err, s') \<Rightarrow> (Inl err, s') | (Inr v, s') \<Rightarrow> k v s')"

definition disableCache :: "client \<Rightarrow> client" where
  "disableCache s = s\<lparr>cacheDisabled := True, cache := disable (cache s)\<rparr>"

definition enableCache :: "client \<Rightarrow> client" where
  "enableCache s = s\<lparr>cacheDisabled := False, cache := enable (cache s)\<rparr>"

section \<open>Connection management\<close>

text \<open>\<open>this.client.callTool({ name, arguments })\<close> of the SDK: one request, logged.\<close>

definition sdkCallTool :: "env \<Rightarrow> string \<Rightarrow> obj \<Rightarrow> response io" where
  "sdkCallTool env name args s =
     (respond env (length (requests s)) name args, s\<lparr>requests := requests s @ [(name, args)]\<rparr>)"

definition authRequiredMessage :: string where
  "authRequiredMessage =
     ''AUTHENTICATION_REQUIRED: Outlook OAuth token is expired or missing. '' @
     ''Do NOT retry this operation. '' @
     ''Ask the user to re-authenticate their personal Outlook account (YOUR_PERSONAL_EMAIL) '' @
     ''by running the login command in a terminal with browser access.''"

text \<open>The decision of \<open>checkAuth\<close> on the text of the verify-login response: the \<open>try\<close> branch
  on parsed JSON, the \<open>catch\<close> branch on plain text.\<close>

definition authenticatedBy :: "(string \<Rightarrow> json option) \<Rightarrow> string \<Rightarrow> bool" where
  "authenticatedBy parse text =
     (case parse text of
        Some parsed \<Rightarrow>
          json_prop parsed ''success'' = Some (JBool True) \<or>
          json_prop parsed ''authenticated'' = Some (JBool True) \<or>
          json_prop parsed ''status'' = Some (JString ''authenticated'')
      | None \<Rightarrow>
          str_includes (toLowerCase text) ''authenticated'' \<or>
          str_includes (toLowerCase text) ''login successful'')"

definition checkAuth :: "env \<Rightarrow> unit io" where
  "checkAuth env =
     await (sdkCallTool env ''verify-login'' []) (\<lambda>result s.
       let text = orElse (findText (content result)) [] in
       if \<not> authenticatedBy (JSON_parse env) text
       then (Inl (Error authRequiredMessage), s)
       else (Inr (), s))"

definition doConnect :: "env \<Rightarrow> unit io" where
  "doConnect env s =
     (let s1 = s\<lparr>sdkClient := Some (spawned s), spawned := spawned s + 1\<rparr> in
      case handshake env (spawned s) of
        Some err \<Rightarrow> (Inl err, s1)
      | None \<Rightarrow>
          (let s2 = s1\<lparr>connected := True\<rparr> in
           if \<not> skipAuthCheck s2 then checkAuth env s2 else (Inr (), s2)))"

text \<open>\<open>connect\<close>: a stored promise is returned as it is; otherwise \<open>doConnect\<close> runs, its promise
  is stored, and the \<open>catch\<close> handler clears the field before rethrowing.\<close>

definition connect :: "env \<Rightarrow> unit io" where
  "connect env s =
     (case connectPromise s of
        Some outcome \<Rightarrow> (outcome, s)
      | None \<Rightarrow>
          (case doConnect env s of
             (Inl err, s') \<Rightarrow> (Inl err, s'\<lparr>connectPromise := None\<rparr>)
           | (Inr u, s') \<Rightarrow> (Inr u, s'\<lparr>connectPromise := Some (Inr ())\<rparr>)))"

definition disconnect :: "client \<Rightarrow> client" where
  "disconnect s =
     (if sdkClient s \<noteq> None \<and> connected s
      then s\<lparr>connected := False, connectPromise := None\<rparr>
      else s)"

section \<open>The tool-call facade\<close>

definition authRequiredSuffix :: string where
  "authRequiredSuffix =
     '' Do NOT retry this operation.'' @
     '' Ask the user to re-authenticate their personal Outlook account (YOUR_PERSONAL_EMAIL)'' @
     '' by running the login command in a terminal with browser access.''"

definition callTool :: "env \<Rightarrow> string \<Rightarrow> obj \<Rightarrow> tool_value io" where
  "callTool env name args s0 =
     (let s = s0\<lparr>facadeCalls := facadeCalls s0 @ [(name, args)]\<rparr> in
      await (connect env) (\<lambda>_.
      await (sdkCallTool env name args) (\<lambda>result s2.
        if isError result then
          (let errorText = orElse (findText (content result)) ''Tool call failed'' in
           if isAuthError errorText
           then (Inl (Error (''AUTHENTICATION_REQUIRED: '' @ errorText @ authRequiredSuffix)), s2)
           else (Inl (Error errorText), s2))
        else
          (case findText (content result) of
             Some text \<Rightarrow>
               if text \<noteq> [] then
                 (case JSON_parse env text of
                    Some parsed \<Rightarrow> (Inr (Parsed parsed), s2)
                  | None \<Rightarrow> (Inr (Text text), s2))
               else (Inr (Content (content result)), s2)
           | None \<Rightarrow> (Inr (Content (content result)), s2)))) s)"

definition login :: "env \<Rightarrow> tool_value io" where
  "login env = callTool env ''login'' []"

definition verifyLogin :: "env \<Rightarrow> tool_value io" where
  "verifyLogin env = callTool env ''verify-login'' []"

section \<open>Read-through caching\<close>

text \<open>
  Modelled from the spec: \<open>PluginCache.getOrFetch(key, producer, {ttl, bypassCache})\<close> of
  \<open>@local/plugin-cache\<close>. Section 4.3: with \<open>bypassCache\<close> set or caching globally disabled
  the producer is always invoked and nothing is stored; otherwise the fresh cached value is
  returned if present, and on a miss or expiry the producer is invoked once and its result
  stored with the given TTL. A producer that throws stores nothing. \<open>now\<close> is the time at
  which the read is served.
\<close>

definition getOrFetch ::
  "nat \<Rightarrow> string \<Rightarrow> tool_value io \<Rightarrow> ttl_tier \<Rightarrow> bool \<Rightarrow> tool_value io" where
  "getOrFetch now key producer ttl bypassCache s =
     (if bypassCache \<or> \<not> enabled (cache s) then producer s
      else
        (case (case entries (cache s) key of
                 Some e \<Rightarrow> if fresh now e then Some (entry_value e) else None
               | None \<Rightarrow> None) of
           Some v \<Rightarrow> (Inr v, s)
         | None \<Rightarrow>
             await producer
               (\<lambda>v s'. (Inr v, s'\<lparr>cache := store key v now (ttl_ms ttl) (cache s')\<rparr>)) s))"

section \<open>Domain facade: mail\<close>

text \<open>
  One definition per method of \<open>OutlookMCPClient\<close>. An optional \<open>options\<close> object that the
  caller leaves out is the empty object (\<open>options || {}\<close>, \<open>options?.k\<close> and \<open>...options\<close> all
  treat the two alike); an optional positional parameter is a \<^typ>\<open>jsval\<close>.
\<close>

definition listMailMessages :: "env \<Rightarrow> nat \<Rightarrow> obj \<Rightarrow> tool_value io" where
  "listMailMessages env now options s =
     getOrFetch now (createCacheKey ''mail_messages'' options)
       (callTool env ''list-mail-messages''
          (assignIfTruthy options ''orderBy''
          (assignIfTruthy options ''filter''
          (assignIfTruthy options ''skip''
          (assignIfTruthy options ''top'' [])))))
       FIVE_MINUTES (cacheDisabled s) s"

definition listMailFolders :: "env \<Rightarrow> nat \<Rightarrow> tool_value io" where
  "listMailFolders env now s =
     getOrFetch now ''mail_folders'' (callTool env ''list-mail-folders'' [])
       HOUR (cacheDisabled s) s"

definition listMailFolderMessages :: "env \<Rightarrow> nat \<Rightarrow> string \<Rightarrow> obj \<Rightarrow> tool_value io" where
  "listMailFolderMessages env now folderId options s =
     getOrFetch now
       (createCacheKey ''folder_messages'' (spread [(''folderId'', JStr folderId)] options))
       (callTool env ''list-mail-folder-messages''
          (assignIfTruthy options ''skip''
          (assignIfTruthy options ''top'' [(''mailFolderId'', JStr folderId)])))
       FIVE_MINUTES (cacheDisabled s) s"

definition getMailMessage :: "env \<Rightarrow> nat \<Rightarrow> string \<Rightarrow> tool_value io" where
  "getMailMessage env now messageId s =
     getOrFetch now (createCacheKey ''mail_message'' [(''id'', JStr messageId)])
       (callTool env ''get-mail-message'' [(''messageId'', JStr messageId)])
       FIFTEEN_MINUTES (cacheDisabled s) s"

text \<open>A write: the tool call is awaited, then the invalidations run, then the result is
  returned.\<close>

definition sendMail :: "env \<Rightarrow> string \<Rightarrow> string \<Rightarrow> string \<Rightarrow> obj \<Rightarrow> tool_value io" where
  "sendMail env to subject body options =
     await (callTool env ''send-mail''
              (assignIfTruthy options ''bodyType''
              (assignIfTruthy options ''cc''
                 [(''to'', JStr to), (''subject'', JStr subject), (''body'', JStr body)])))
       (\<lambda>result s. (Inr result, s\<lparr>cache := invalidatePattern ''mail_messages'' (cache s)\<rparr>))"

definition createDraftEmail ::
  "env \<Rightarrow> string \<Rightarrow> string \<Rightarrow> string \<Rightarrow> obj \<Rightarrow> tool_value io" where
  "createDraftEmail env to subject body options =
     callTool env ''create-draft-email''
       (assignIfTruthy options ''cc''
          [(''to'', JStr to), (''subject'', JStr subject), (''body'', JStr body)])"

definition moveMailMessage :: "env \<Rightarrow> string \<Rightarrow> string \<Rightarrow> tool_value io" where
  "moveMailMessage env messageId destinationFolderId =
     await (callTool env ''move-mail-message''
              [(''messageId'', JStr messageId),
               (''destinationFolderId'', JStr destinationFolderId)])
       (\<lambda>result s. (Inr result, s\<lparr>cache :=
          invalidate (createCacheKey ''mail_message'' [(''id'', JStr messageId)])
            (invalidatePattern ''folder_messages''
              (invalidatePattern ''mail_messages'' (cache s)))\<rparr>))"

definition deleteMailMessage :: "env \<Rightarrow> string \<Rightarrow> tool_value io" where
  "deleteMailMessage env messageId =
     await (callTool env ''delete-mail-message'' [(''messageId'', JStr messageId)])
       (\<lambda>result s. (Inr result, s\<lparr>cache :=
          invalidate (createCacheKey ''mail_message'' [(''id'', JStr messageId)])
            (invalidatePattern ''folder_messages''
              (invalidatePattern ''mail_messages'' (cache s)))\<rparr>))"

section \<open>Domain facade: calendar, contacts, tasks, search\<close>

definition listCalendars :: "env \<Rightarrow> nat \<Rightarrow> tool_value io" where
  "listCalendars env now s =
     getOrFetch now ''calendars'' (callTool env ''list-calendars'' [])
       HOUR (cacheDisabled s) s"

definition listCalendarEvents :: "env \<Rightarrow> nat \<Rightarrow> obj \<Rightarrow> tool_value io" where
  "listCalendarEvents env now options s =
     getOrFetch now (createCacheKey ''calendar_events'' options)
       (callTool env ''list-calendar-events''
          (assignIfTruthy options ''top''
          (assignIfTruthy options ''calendarId'' [])))
       FIFTEEN_MINUTES (cacheDisabled s) s"

definition getCalendarEvent :: "env \<Rightarrow> nat \<Rightarrow> string \<Rightarrow> jsval \<Rightarrow> tool_value io" where
  "getCalendarEvent env now eventId calendarId s =
     getOrFetch now
       (createCacheKey ''calendar_event'' [(''id'', JStr eventId), (''calendarId'', calendarId)])
       (callTool env ''get-calendar-event''
          (assignParamIfTruthy ''calendarId'' calendarId [(''eventId'', JStr eventId)]))
       FIFTEEN_MINUTES (cacheDisabled s) s"

definition getCalendarView ::
  "env \<Rightarrow> nat \<Rightarrow> string \<Rightarrow> string \<Rightarrow> jsval \<Rightarrow> tool_value io" where
  "getCalendarView env now startDateTime endDateTime calendarId s =
     getOrFetch now
       (createCacheKey ''calendar_view''
          [(''start'', JStr startDateTime), (''end'', JStr endDateTime),
           (''calendarId'', calendarId)])
       (callTool env ''get-calendar-view''
          (assignParamIfTruthy ''calendarId'' calendarId
             [(''startDateTime'', JStr startDateTime), (''endDateTime'', JStr endDateTime)]))
       FIFTEEN_MINUTES (cacheDisabled s) s"

definition createCalendarEvent ::
  "env \<Rightarrow> string \<Rightarrow> string \<Rightarrow> string \<Rightarrow> obj \<Rightarrow> tool_value io" where
  "createCalendarEvent env subject start end' options =
     await (callTool env ''create-calendar-event''
              (assignIfTruthy options ''calendarId''
              (assignIfTruthy options ''attendees''
              (assignIfTruthy options ''location''
              (assignIfTruthy options ''body''
                 [(''subject'', JStr subject), (''start'', JStr start),
                  (''end'', JStr end')])))))
       (\<lambda>result s. (Inr result, s\<lparr>cache :=
          invalidatePattern ''calendar_view''
            (invalidatePattern ''calendar_events'' (cache s))\<rparr>))"

definition updateCalendarEvent :: "env \<Rightarrow> string \<Rightarrow> obj \<Rightarrow> tool_value io" where
  "updateCalendarEvent env eventId options =
     await (callTool env ''update-calendar-event''
              (spread [(''eventId'', JStr eventId)] options))
       (\<lambda>result s. (Inr result, s\<lparr>cache :=
          invalidate
            (createCacheKey ''calendar_event''
               [(''id'', JStr eventId), (''calendarId'', field options ''calendarId'')])
            (invalidatePattern ''calendar_view''
              (invalidatePattern ''calendar_events'' (cache s)))\<rparr>))"

definition deleteCalendarEvent :: "env \<Rightarrow> string \<Rightarrow> jsval \<Rightarrow> tool_value io" where
  "deleteCalendarEvent env eventId calendarId =
     await (callTool env ''delete-calendar-event''
              (assignParamIfTruthy ''calendarId'' calendarId [(''eventId'', JStr eventId)]))
       (\<lambda>result s. (Inr result, s\<lparr>cache :=
          invalidate
            (createCacheKey ''calendar_event''
               [(''id'', JStr eventId), (''calendarId'', calendarId)])
            (invalidatePattern ''calendar_view''
              (invalidatePattern ''calendar_events'' (cache s)))\<rparr>))"

definition listContacts :: "env \<Rightarrow> nat \<Rightarrow> obj \<Rightarrow> tool_value io" where
  "listContacts env now options s =
     getOrFetch now (createCacheKey ''contacts'' options)
       (callTool env ''list-outlook-contacts''
          (assignIfTruthy options ''skip''
          (assignIfTruthy options ''top'' [])))
       FIFTEEN_MINUTES (cacheDisabled s) s"

definition listTasks :: "env \<Rightarrow> nat \<Rightarrow> obj \<Rightarrow> tool_value io" where
  "listTasks env now options s =
     getOrFetch now (createCacheKey ''tasks'' options)
       (callTool env ''list-tasks''
          (assignIfTruthy options ''top''
          (assignIfTruthy options ''listId'' [])))
       FIVE_MINUTES (cacheDisabled s) s"

definition search :: "env \<Rightarrow> nat \<Rightarrow> string \<Rightarrow> jsval \<Rightarrow> tool_value io" where
  "search env now query entityTypes s =
     getOrFetch now
       (createCacheKey ''search'' [(''query'', JStr query), (''entityTypes'', entityTypes)])
       (callTool env ''search''
          (assignParamIfTruthy ''entityTypes'' entityTypes [(''query'', JStr query)]))
       FIVE_MINUTES (cacheDisabled s) s"

section \<open>Calls of the facade\<close>

text \<open>
  A call of a read method or of a write method with its arguments, and the dispatch to the
  method, so that a statement can speak of every read and of every write.
\<close>

datatype read_call =
    ListMailMessages obj
  | ListMailFolders
  | ListMailFolderMessages string obj
  | GetMailMessage string
  | ListCalendars
  | ListCalendarEvents obj
  | GetCalendarEvent string jsval
  | GetCalendarView string string jsval
  | ListContacts obj
  | ListTasks obj
  | Search string jsval

fun performRead :: "env \<Rightarrow> nat \<Rightarrow> read_call \<Rightarrow> tool_value io" where
  "performRead env now (ListMailMessages options) = listMailMessages env now options"
| "performRead env now ListMailFolders = listMailFolders env now"
| "performRead env now (ListMailFolderMessages folderId options) =
     listMailFolderMessages env now folderId options"
| "performRead env now (GetMailMessage messageId) = getMailMessage env now messageId"
| "performRead env now ListCalendars = listCalendars env now"
| "performRead env now (ListCalendarEvents options) = listCalendarEvents env now options"
| "performRead env now (GetCalendarEvent eventId calendarId) =
     getCalendarEvent env now eventId calendarId"
| "performRead env now (GetCalendarView start end' calendarId) =
     getCalendarView env now start end' calendarId"
| "performRead env now (ListContacts options) = listContacts env now options"
| "performRead env now (ListTasks options) = listTasks env now options"
| "performRead env now (Search query entityTypes) = search env now query entityTypes"

datatype write_call =
    SendMail string string string obj
  | CreateDraftEmail string string string obj
  | MoveMailMessage string string
  | DeleteMailMessage string
  | CreateCalendarEvent string string string obj
  | UpdateCalendarEvent string obj
  | DeleteCalendarEvent string jsval

fun performWrite :: "env \<Rightarrow> write_call \<Rightarrow> tool_value io" where
  "performWrite env (SendMail to subject body options) = sendMail env to subject body options"
| "performWrite env (CreateDraftEmail to subject body options) =
     createDraftEmail env to subject body options"
| "performWrite env (MoveMailMessage messageId folderId) = moveMailMessage env messageId folderId"
| "performWrite env (DeleteMailMessage messageId) = deleteMailMessage env messageId"
| "performWrite env (CreateCalendarEvent subject start end' options) =
     createCalendarEvent env subject start end' options"
| "performWrite env (UpdateCalendarEvent eventId options) =
     updateCalendarEvent env eventId options"
| "performWrite env (DeleteCalendarEvent eventId calendarId) =
     deleteCalendarEvent env eventId calendarId"

text \<open>The cache key, the TTL tier, the tool and the argument object of a read, as the
  methods above pass them to \<open>getOrFetch\<close> and \<open>callTool\<close> (lemma \<open>performRead_getOrFetch\<close>).\<close>

fun cacheKeyOf :: "read_call \<Rightarrow> string" where
  "cacheKeyOf (ListMailMessages options) = createCacheKey ''mail_messages'' options"
| "cacheKeyOf ListMailFolders = ''mail_folders''"
| "cacheKeyOf (ListMailFolderMessages folderId options) =
     createCacheKey ''folder_messages'' (spread [(''folderId'', JStr folderId)] options)"
| "cacheKeyOf (GetMailMessage messageId) =
     createCacheKey ''mail_message'' [(''id'', JStr messageId)]"
| "cacheKeyOf ListCalendars = ''calendars''"
| "cacheKeyOf (ListCalendarEvents options) = createCacheKey ''calendar_events'' options"
| "cacheKeyOf (GetCalendarEvent eventId calendarId) =
     createCacheKey ''calendar_event'' [(''id'', JStr eventId), (''calendarId'', calendarId)]"
| "cacheKeyOf (GetCalendarView start end' calendarId) =
     createCacheKey ''calendar_view''
       [(''start'', JStr start), (''end'', JStr end'), (''calendarId'', calendarId)]"
| "cacheKeyOf (ListContacts options) = createCacheKey ''contacts'' options"
| "cacheKeyOf (ListTasks options) = createCacheKey ''tasks'' options"
| "cacheKeyOf (Search query entityTypes) =
     createCacheKey ''search'' [(''query'', JStr query), (''entityTypes'', entityTypes)]"

fun ttlOf :: "read_call \<Rightarrow> ttl_tier" where
  "ttlOf (ListMailMessages _) = FIVE_MINUTES"
| "ttlOf ListMailFolders = HOUR"
| "ttlOf (ListMailFolderMessages _ _) = FIVE_MINUTES"
| "ttlOf (GetMailMessage _) = FIFTEEN_MINUTES"
| "ttlOf ListCalendars = HOUR"
| "ttlOf (ListCalendarEvents _) = FIFTEEN_MINUTES"
| "ttlOf (GetCalendarEvent _ _) = FIFTEEN_MINUTES"
| "ttlOf (GetCalendarView _ _ _) = FIFTEEN_MINUTES"
| "ttlOf (ListContacts _) = FIFTEEN_MINUTES"
| "ttlOf (ListTasks _) = FIVE_MINUTES"
| "ttlOf (Search _ _) = FIVE_MINUTES"

fun readTool :: "read_call \<Rightarrow> string" where
  "readTool (ListMailMessages _) = ''list-mail-messages''"
| "readTool ListMailFolders = ''list-mail-folders''"
| "readTool (ListMailFolderMessages _ _) = ''list-mail-folder-messages''"
| "readTool (GetMailMessage _) = ''get-mail-message''"
| "readTool ListCalendars = ''list-calendars''"
| "readTool (ListCalendarEvents _) = ''list-calendar-events''"
| "readTool (GetCalendarEvent _ _) = ''get-calendar-event''"
| "readTool (GetCalendarView _ _ _) = ''get-calendar-view''"
| "readTool (ListContacts _) = ''list-outlook-contacts''"
| "readTool (ListTasks _) = ''list-tasks''"
| "readTool (Search _ _) = ''search''"

fun readArgs :: "read_call \<Rightarrow> obj" where
  "readArgs (ListMailMessages options) =
     assignIfTruthy options ''orderBy'' (assignIfTruthy options ''filter''
       (assignIfTruthy options ''skip'' (assignIfTruthy options ''top'' [])))"
| "readArgs ListMailFolders = []"
| "readArgs (ListMailFolderMessages folderId options) =
     assignIfTruthy options ''skip''
       (assignIfTruthy options ''top'' [(''mailFolderId'', JStr folderId)])"
| "readArgs (GetMailMessage messageId) = [(''messageId'', JStr messageId)]"
| "readArgs ListCalendars = []"
| "readArgs (ListCalendarEvents options) =
     assignIfTruthy options ''top'' (assignIfTruthy options ''calendarId'' [])"
| "readArgs (GetCalendarEvent eventId calendarId) =
     assignParamIfTruthy ''calendarId'' calendarId [(''eventId'', JStr eventId)]"
| "readArgs (GetCalendarView start end' calendarId) =
     assignParamIfTruthy ''calendarId'' calendarId
       [(''startDateTime'', JStr start), (''endDateTime'', JStr end')]"
| "readArgs (ListContacts options) =
     assignIfTruthy options ''skip'' (assignIfTruthy options ''top'' [])"
| "readArgs (ListTasks options) =
     assignIfTruthy options ''top'' (assignIfTruthy options ''listId'' [])"
| "readArgs (Search query entityTypes) =
     assignParamIfTruthy ''entityTypes'' entityTypes [(''query'', JStr query)]"

text \<open>The tool and the argument object of a write (lemma \<open>performWrite_callTool\<close>).\<close>

fun writeTool :: "write_call \<Rightarrow> string" where
  "writeTool (SendMail _ _ _ _) = ''send-mail''"
| "writeTool (CreateDraftEmail _ _ _ _) = ''create-draft-email''"
| "writeTool (MoveMailMessage _ _) = ''move-mail-message''"
| "writeTool (DeleteMailMessage _) = ''delete-mail-message''"
| "writeTool (CreateCalendarEvent _ _ _ _) = ''create-calendar-event''"
| "writeTool (UpdateCalendarEvent _ _) = ''update-calendar-event''"
| "writeTool (DeleteCalendarEvent _ _) = ''delete-calendar-event''"

fun writeArgs :: "write_call \<Rightarrow> obj" where
  "writeArgs (SendMail to subject body options) =
     assignIfTruthy options ''bodyType'' (assignIfTruthy options ''cc''
       [(''to'', JStr to), (''subject'', JStr subject), (''body'', JStr body)])"
| "writeArgs (CreateDraftEmail to subject body options) =
     assignIfTruthy options ''cc''
       [(''to'', JStr to), (''subject'', JStr subject), (''body'', JStr body)]"
| "writeArgs (MoveMailMessage messageId folderId) =
     [(''messageId'', JStr messageId), (''destinationFolderId'', JStr folderId)]"
| "writeArgs (DeleteMailMessage messageId) = [(''messageId'', JStr messageId)]"
| "writeArgs (CreateCalendarEvent subject start end' options) =
     assignIfTruthy options ''calendarId'' (assignIfTruthy options ''attendees''
       (assignIfTruthy options ''location'' (assignIfTruthy options ''body''
         [(''subject'', JStr subject), (''start'', JStr start), (''end'', JStr end')])))"
| "writeArgs (UpdateCalendarEvent eventId options) =
     spread [(''eventId'', JStr eventId)] options"
| "writeArgs (DeleteCalendarEvent eventId calendarId) =
     assignParamIfTruthy ''calendarId'' calendarId [(''eventId'', JStr eventId)]"

text \<open>What the invalidations of a write do to the cache, in the order of the methods above
  (lemma \<open>performWrite_callTool\<close>).\<close>

fun invalidationsOf :: "write_call \<Rightarrow> plugin_cache \<Rightarrow> plugin_cache" where
  "invalidationsOf (SendMail _ _ _ _) c = invalidatePattern ''mail_messages'' c"
| "invalidationsOf (CreateDraftEmail _ _ _ _) c = c"
| "invalidationsOf (MoveMailMessage messageId _) c =
     invalidate (createCacheKey ''mail_message'' [(''id'', JStr messageId)])
       (invalidatePattern ''folder_messages'' (invalidatePattern ''mail_messages'' c))"
| "invalidationsOf (DeleteMailMessage messageId) c =
     invalidate (createCacheKey ''mail_message'' [(''id'', JStr messageId)])
       (invalidatePattern ''folder_messages'' (invalidatePattern ''mail_messages'' c))"
| "invalidationsOf (CreateCalendarEvent _ _ _ _) c =
     invalidatePattern ''calendar_view'' (invalidatePattern ''calendar_events'' c)"
| "invalidationsOf (UpdateCalendarEvent eventId options) c =
     invalidate (createCacheKey ''calendar_event''
                   [(''id'', JStr eventId), (''calendarId'', field options ''calendarId'')])
       (invalidatePattern ''calendar_view'' (invalidatePattern ''calendar_events'' c))"
| "invalidationsOf (DeleteCalendarEvent eventId calendarId) c =
     invalidate (createCacheKey ''calendar_event''
                   [(''id'', JStr eventId), (''calendarId'', calendarId)])
       (invalidatePattern ''calendar_view'' (invalidatePattern ''calendar_events'' c))"

section \<open>Optional parameters\<close>

text \<open>
  The optional parameters of each method, from its TypeScript signature, each with the
  value the caller gave (\<open>undefined\<close> when the caller left it out). The argument name of an
  optional parameter is the parameter name in every method.
\<close>

definition given :: "obj \<Rightarrow> string list \<Rightarrow> (string \<times> jsval) list" where
  "given options names = map (\<lambda>k. (k, field options k)) names"

fun readOptionals :: "read_call \<Rightarrow> (string \<times> jsval) list" where
  "readOptionals (ListMailMessages options) =
     given options [''top'', ''skip'', ''filter'', ''orderBy'']"
| "readOptionals ListMailFolders = []"
| "readOptionals (ListMailFolderMessages _ options) = given options [''top'', ''skip'']"
| "readOptionals (GetMailMessage _) = []"
| "readOptionals ListCalendars = []"
| "readOptionals (ListCalendarEvents options) = given options [''calendarId'', ''top'']"
| "readOptionals (GetCalendarEvent _ calendarId) = [(''calendarId'', calendarId)]"
| "readOptionals (GetCalendarView _ _ calendarId) = [(''calendarId'', calendarId)]"
| "readOptionals (ListContacts options) = given options [''top'', ''skip'']"
| "readOptionals (ListTasks options) = given options [''listId'', ''top'']"
| "readOptionals (Search _ entityTypes) = [(''entityTypes'', entityTypes)]"

fun writeOptionals :: "write_call \<Rightarrow> (string \<times> jsval) list" where
  "writeOptionals (SendMail _ _ _ options) = given options [''cc'', ''bodyType'']"
| "writeOptionals (CreateDraftEmail _ _ _ options) = given options [''cc'']"
| "writeOptionals (MoveMailMessage _ _) = []"
| "writeOptionals (DeleteMailMessage _) = []"
| "writeOptionals (CreateCalendarEvent _ _ _ options) =
     given options [''body'', ''location'', ''attendees'', ''calendarId'']"
| "writeOptionals (UpdateCalendarEvent _ options) =
     given options [''subject'', ''start'', ''end'', ''body'', ''location'', ''calendarId'']"
| "writeOptionals (DeleteCalendarEvent _ calendarId) = [(''calendarId'', calendarId)]"

text \<open>The option objects that the command handlers of \<open>cli.ts\<close> build for
  \<open>list-messages --skip 0\<close> and for \<open>update-event --id e1 --subject Standup\<close>: every flag is
  a field, the unset ones undefined.\<close>

definition skipZeroOptions :: obj where
  "skipZeroOptions =
     [(''top'', JUndefined), (''skip'', JNum 0), (''filter'', JUndefined),
      (''orderBy'', JUndefined)]"

definition subjectOnlyOptions :: obj where
  "subjectOnlyOptions =
     [(''subject'', JStr ''Standup''), (''start'', JUndefined), (''end'', JUndefined),
      (''body'', JUndefined), (''location'', JUndefined), (''calendarId'', JUndefined)]"

section \<open>The connection guard under interleaved callers\<close>

text \<open>
  \<open>connect\<close>, \<open>doConnect\<close> and \<open>disconnect\<close> once more, now with callers that do not await one
  another. JavaScript runs each piece of code up to its next \<open>await\<close> without interruption,
  so the guard moves in steps: a caller invokes \<open>connect()\<close> (which, when no promise is
  stored, runs \<open>doConnect\<close> up to \<open>await this.client.connect(this.transport)\<close> and stores the
  promise); the handshake of an attempt settles (on success \<open>connected\<close> is set and, unless
  \<open>skipAuthCheck\<close> is set, the verify-login request is sent); the verify-login request of
  an attempt settles; a caller invokes \<open>disconnect()\<close> (which, when there is a client and
  \<open>connected\<close> is set, calls \<open>this.client.close()\<close> and awaits it); a \<open>close()\<close> settles (when it
  resolves, \<open>connected\<close> and \<open>connectPromise\<close> are cleared). There is one promise per
  invocation of \<open>doConnect\<close>; a promise is named by its index in \<open>g_attempts\<close>. A rejection
  runs the \<open>catch\<close> handler of \<open>connect\<close>, which clears the stored promise. The fields are
  those of the client, prefixed; \<open>g_client\<close> is \<open>this.client\<close> (the client object made by the
  attempt of that index), \<open>g_closing\<close> counts the \<open>close()\<close> calls that have not settled.
\<close>

datatype attempt = Handshaking | Verifying | Resolved | Rejected error

fun inFlight :: "attempt \<Rightarrow> bool" where
  "inFlight Handshaking = True"
| "inFlight Verifying = True"
| "inFlight _ = False"

record guard =
  g_attempts :: "attempt list"
  g_connectPromise :: "nat option"
  g_client :: "nat option"
  g_connected :: bool
  g_skipAuthCheck :: bool
  g_requests :: "(string \<times> obj) list"
  g_closing :: nat


datatype event =
    CallConnect
  | HandshakeDone nat "error option"
  | VerifyDone nat "error + response"
  | SetSkipAuthCheck bool
  | CallDisconnect
  | CloseDone "error option"

text \<open>\<open>connect()\<close>: the promise handed to the caller, and the guard afterwards.\<close>

definition connectCall :: "guard \<Rightarrow> nat \<times> guard" where
  "connectCall g =
     (case g_connectPromise g of
        Some p \<Rightarrow> (p, g)
      | None \<Rightarrow>
          (length (g_attempts g),
           g\<lparr>g_attempts := g_attempts g @ [Handshaking],
             g_connectPromise := Some (length (g_attempts g)),
             g_client := Some (length (g_attempts g))\<rparr>))"

definition rejectAttempt :: "nat \<Rightarrow> error \<Rightarrow> guard \<Rightarrow> guard" where
  "rejectAttempt p err g =
     g\<lparr>g_attempts := (g_attempts g)[p := Rejected err], g_connectPromise := None\<rparr>"

definition handshakeDone :: "nat \<Rightarrow> error option \<Rightarrow> guard \<Rightarrow> guard" where
  "handshakeDone p outcome g =
     (if p < length (g_attempts g) \<and> g_attempts g ! p = Handshaking then
        (case outcome of
           Some err \<Rightarrow> rejectAttempt p err g
         | None \<Rightarrow>
             (let g1 = g\<lparr>g_connected := True\<rparr> in
              if \<not> g_skipAuthCheck g1
              then g1\<lparr>g_attempts := (g_attempts g1)[p := Verifying],
                     g_requests := g_requests g1 @ [(''verify-login'', [])]\<rparr>
              else g1\<lparr>g_attempts := (g_attempts g1)[p := Resolved]\<rparr>))
      else g)"

definition verifyDone ::
  "(string \<Rightarrow> json option) \<Rightarrow> nat \<Rightarrow> error + response \<Rightarrow> guard \<Rightarrow> guard" where
  "verifyDone parse p outcome g =
     (if p < length (g_attempts g) \<and> g_attempts g ! p = Verifying then
        (case outcome of
           Inl err \<Rightarrow> rejectAttempt p err g
         | Inr result \<Rightarrow>
             if \<not> authenticatedBy parse (orElse (findText (content result)) [])
             then rejectAttempt p (Error authRequiredMessage) g
             else g\<lparr>g_attempts := (g_attempts g)[p := Resolved]\<rparr>)
      else g)"

text \<open>\<open>disconnect()\<close> up to \<open>await this.client.close()\<close>, and the rest of it once \<open>close()\<close>
  has settled: a rejected \<open>close()\<close> throws past the two assignments.\<close>

definition disconnectCall :: "guard \<Rightarrow> guard" where
  "disconnectCall g =
     (if g_client g \<noteq> None \<and> g_connected g then g\<lparr>g_closing := g_closing g + 1\<rparr> else g)"

definition closeDone :: "error option \<Rightarrow> guard \<Rightarrow> guard" where
  "closeDone outcome g =
     (if 0 < g_closing g then
        (case outcome of
           Some err \<Rightarrow> g\<lparr>g_closing := g_closing g - 1\<rparr>
         | None \<Rightarrow>
             g\<lparr>g_closing := g_closing g - 1, g_connected := False, g_connectPromise := None\<rparr>)
      else g)"

fun settle :: "(string \<Rightarrow> json option) \<Rightarrow> event \<Rightarrow> guard \<Rightarrow> guard" where
  "settle parse CallConnect g = snd (connectCall g)"
| "settle parse (HandshakeDone p outcome) g = handshakeDone p outcome g"
| "settle parse (VerifyDone p outcome) g = verifyDone parse p outcome g"
| "settle parse (SetSkipAuthCheck b) g = g\<lparr>g_skipAuthCheck := b\<rparr>"
| "settle parse CallDisconnect g = disconnectCall g"
| "settle parse (CloseDone outcome) g = closeDone outcome g"

text \<open>A run: the promises handed to the callers of \<open>connect()\<close>, in order, and the guard at
  the end.\<close>

fun run :: "(string \<Rightarrow> json option) \<Rightarrow> event list \<Rightarrow> guard \<Rightarrow> nat list \<times> guard" where
  "run parse [] g = ([], g)"
| "run parse (CallConnect # evs) g =
     (case run parse evs (snd (connectCall g)) of
        (ps, g') \<Rightarrow> (fst (connectCall g) # ps, g'))"
| "run parse (e # evs) g = run parse evs (settle parse e g)"

text \<open>A run is calm when no \<open>disconnect()\<close> completes while a connection attempt is in
  flight: wherever a pending \<open>close()\<close> resolves, every attempt has settled.\<close>

definition quiet :: "guard \<Rightarrow> bool" where
  "quiet g = list_all (\<lambda>a. \<not> inFlight a) (g_attempts g)"

fun calm :: "(string \<Rightarrow> json option) \<Rightarrow> event list \<Rightarrow> guard \<Rightarrow> bool" where
  "calm parse [] g = True"
| "calm parse (CloseDone None # evs) g =
     ((g_closing g = 0 \<or> quiet g) \<and> calm parse evs (closeDone None g))"
| "calm parse (e # evs) g = calm parse evs (settle parse e g)"

text \<open>The invariant of the guard in calm runs: an attempt in flight is the one the stored
  promise names, and the stored promise names an existing attempt that was not rejected.\<close>

definition guardInv :: "guard \<Rightarrow> bool" where
  "guardInv g \<longleftrightarrow>
     (\<forall>p < length (g_attempts g). inFlight (g_attempts g ! p) \<longrightarrow> g_connectPromise g = Some p) \<and>
     (\<forall>p. g_connectPromise g = Some p \<longrightarrow>
        p < length (g_attempts g) \<and> (\<forall>err. g_attempts g ! p \<noteq> Rejected err))"



section \<open>Concrete servers\<close>

text \<open>Servers and parsers for the concrete runs below. \<open>plainTextServer reply\<close> answers every
  request with the one text \<open>reply\<close>, which is not JSON.\<close>

definition textResponse :: "bool \<Rightarrow> string \<Rightarrow> response" where
  "textResponse failed t =
     \<lparr>isError = failed, content = [\<lparr>item_type = ''text'', item_text = Some t\<rparr>]\<rparr>"

definition plainTextServer :: "string \<Rightarrow> env" where
  "plainTextServer reply =
     \<lparr>handshake = (\<lambda>n. None),
      respond = (\<lambda>n name args. Inr (textResponse False reply)),
      JSON_parse = (\<lambda>t. None)\<rparr>"

text \<open>\<open>demoParse\<close> knows three JSON documents; every other text of the demo server is not
  JSON.\<close>

definition demoParse :: "string \<Rightarrow> json option" where
  "demoParse t =
     (if t = ''[1,2]'' then Some (JArray [JNumber 1, JNumber 2])
      else if t = ''true'' then Some (JBool True)
      else if t = ''{}'' then Some (JObject [])
      else None)"

definition demoServer :: env where
  "demoServer =
     \<lparr>handshake = (\<lambda>n. None),
      respond = (\<lambda>n name args.
        if name = ''verify-login'' then Inr (textResponse False ''Login successful'')
        else if name = ''list-mail-messages'' then Inr (textResponse False ''[1,2]'')
        else if name = ''login'' then Inr (textResponse False ''Open the browser to sign in'')
        else if name = ''list-calendars''
          then Inr \<lparr>isError = False, content = [\<lparr>item_type = ''image'', item_text = None\<rparr>]\<rparr>
        else if name = ''send-mail'' then Inr (textResponse True ''401 Unauthorized'')
        else if name = ''search'' then Inr (textResponse True ''Mailbox not found'')
        else if name = ''get-mail-message'' then Inl (Error ''Request timed out'')
        else Inr (textResponse False ''{}'')),
      JSON_parse = demoParse\<rparr>"

section \<open>Documented invalidations\<close>

text \<open>
  The \<open>@invalidates\<close> lines of the doc comments of the write methods, as they are written,
  and the cached entries they stand for; a cached entry is the entry of a read, stored
  under the key of the read. \<open>name/*\<close> stands for every entry whose key starts with \<open>name\<close>.
  \<open>mail_message/{messageId}\<close> stands for the detail entry of the message, the entry of
  \<open>getMailMessage(messageId)\<close>. \<open>calendar_event/{eventId}\<close> names the event and nothing
  else, so it stands for every detail entry of the event: the entry of
  \<open>getCalendarEvent(eventId, calendarId)\<close>, whatever \<open>calendarId\<close> the event was read with.
  \<open>createDraftEmail\<close> documents none.
\<close>

datatype pattern = Prefix string | MessageDetail string | EventDetail string

fun matches :: "pattern \<Rightarrow> read_call \<Rightarrow> bool" where
  "matches (Prefix literal) r = startsWith (cacheKeyOf r) literal"
| "matches (MessageDetail messageId) (GetMailMessage m) = (m = messageId)"
| "matches (MessageDetail messageId) _ = False"
| "matches (EventDetail eventId) (GetCalendarEvent e calendarId) = (e = eventId)"
| "matches (EventDetail eventId) _ = False"

fun documentedInvalidations :: "write_call \<Rightarrow> pattern list" where
  "documentedInvalidations (SendMail _ _ _ _) = [Prefix ''mail_messages'']"
| "documentedInvalidations (CreateDraftEmail _ _ _ _) = []"
| "documentedInvalidations (MoveMailMessage messageId _) =
     [Prefix ''mail_messages'', Prefix ''folder_messages'', MessageDetail messageId]"
| "documentedInvalidations (DeleteMailMessage messageId) =
     [Prefix ''mail_messages'', Prefix ''folder_messages'', MessageDetail messageId]"
| "documentedInvalidations (CreateCalendarEvent _ _ _ _) =
     [Prefix ''calendar_events'', Prefix ''calendar_view'']"
| "documentedInvalidations (UpdateCalendarEvent eventId _) =
     [Prefix ''calendar_events'', Prefix ''calendar_view'', EventDetail eventId]"
| "documentedInvalidations (DeleteCalendarEvent eventId _) =
     [Prefix ''calendar_events'', Prefix ''calendar_view'', EventDetail eventId]"

text \<open>A cache that already holds a message list, the folder list, a folder's message list
  and two detail entries, all stored at time 0.\<close>

definition cached :: "tool_value \<Rightarrow> ttl_tier \<Rightarrow> cache_entry" where
  "cached v tier = \<lparr>entry_value = v, entry_createdAt = 0, entry_ttl = ttl_ms tier\<rparr>"

definition warmCache :: plugin_cache where
  "warmCache =
     \<lparr>entries =
        [cacheKeyOf (ListMailMessages []) \<mapsto> cached (Text ''inbox'') FIVE_MINUTES,
         cacheKeyOf ListMailFolders \<mapsto> cached (Text ''folders'') HOUR,
         cacheKeyOf (ListMailFolderMessages ''f1'' []) \<mapsto> cached (Text ''in f1'') FIVE_MINUTES,
         cacheKeyOf (GetMailMessage ''m1'') \<mapsto> cached (Text ''message m1'') FIFTEEN_MINUTES,
         cacheKeyOf (GetMailMessage ''m2'') \<mapsto> cached (Text ''message m2'') FIFTEEN_MINUTES],
      enabled = True\<rparr>"

text \<open>A cache that holds the detail entry of the event \<open>e1\<close> as \<open>get-event --id e1
  --calendar-id cal1\<close> stored it at time 0.\<close>

definition eventCache :: plugin_cache where
  "eventCache =
     \<lparr>entries =
        [cacheKeyOf (GetCalendarEvent ''e1'' (JStr ''cal1'')) \<mapsto>
           cached (Text ''event e1 as it was'') FIFTEEN_MINUTES],
      enabled = True\<rparr>"

section \<open>Properties of the string functions\<close>

lemma startsWith_iff: "startsWith s p \<longleftrightarrow> (\<exists>post. s = p @ post)"
  unfolding startsWith_def by (metis append_eq_conv_conj append_take_drop_id)

lemma str_includes_iff: "str_includes s p \<longleftrightarrow> (\<exists>pre post. s = pre @ p @ post)"
proof (induction s)
  case Nil
  then show ?case by auto
next
  case (Cons c cs)
  have "(\<exists>pre post. c # cs = pre @ p @ post) \<longleftrightarrow>
        (\<exists>post. c # cs = p @ post) \<or> (\<exists>pre post. cs = pre @ p @ post)"
    (is "?whole \<longleftrightarrow> ?here \<or> ?later")
  proof
    assume ?whole
    then obtain pre post where split: "c # cs = pre @ p @ post" by blast
    show "?here \<or> ?later"
    proof (cases pre)
      case Nil
      with split show ?thesis by auto
    next
      case (Cons a pre')
      with split have "cs = pre' @ p @ post" by simp
      then show ?thesis by blast
    qed
  next
    assume "?here \<or> ?later"
    then show ?whole
    proof
      assume ?here
      then obtain post where "c # cs = [] @ p @ post" by auto
      then show ?whole by blast
    next
      assume ?later
      then obtain pre post where "c # cs = (c # pre) @ p @ post" by auto
      then show ?whole by blast
    qed
  qed
  with Cons.IH show ?case by (simp add: startsWith_iff)
qed

lemma toLowerCase_append: "toLowerCase (a @ b) = toLowerCase a @ toLowerCase b"
  by (simp add: toLowerCase_def)

lemma toLowerCase_split:
  "toLowerCase s = a @ b \<Longrightarrow> \<exists>a' b'. s = a' @ b' \<and> toLowerCase a' = a \<and> toLowerCase b' = b"
  unfolding toLowerCase_def by (metis map_eq_append_conv)

text \<open>
  Lowercasing the whole text and searching for a literal is the same as finding a stretch
  of the text that lowercases to the literal.
\<close>

lemma includes_lower_iff:
  "str_includes (toLowerCase text) v \<longleftrightarrow>
     (\<exists>pre mid post. text = pre @ mid @ post \<and> toLowerCase mid = v)"
proof
  assume "str_includes (toLowerCase text) v"
  then obtain a b where "toLowerCase text = a @ v @ b"
    by (auto simp: str_includes_iff)
  then obtain pre rest where 1: "text = pre @ rest" and 2: "toLowerCase rest = v @ b"
    using toLowerCase_split by blast
  from 2 obtain mid post where "rest = mid @ post" and "toLowerCase mid = v"
    using toLowerCase_split by blast
  with 1 show "\<exists>pre mid post. text = pre @ mid @ post \<and> toLowerCase mid = v" by blast
next
  assume "\<exists>pre mid post. text = pre @ mid @ post \<and> toLowerCase mid = v"
  then obtain pre mid post where "text = pre @ mid @ post" and "toLowerCase mid = v" by blast
  then have "toLowerCase text = toLowerCase pre @ v @ toLowerCase post"
    by (simp add: toLowerCase_append)
  then show "str_includes (toLowerCase text) v"
    unfolding str_includes_iff by blast
qed

section \<open>Claim C1\<close>

text \<open>
  C1. A text is flagged as an authentication error exactly when it contains one of the
  vocabulary literals case-insensitively, in any surrounding text: some stretch \<open>mid\<close> of the
  text, between an arbitrary prefix and suffix, lowercases to a literal of the vocabulary.
  A text with no such stretch is not flagged.
\<close>

theorem isAuthError_iff_vocabulary:
  "isAuthError text \<longleftrightarrow>
     (\<exists>v \<in> set authVocabulary. \<exists>pre mid post. text = pre @ mid @ post \<and> toLowerCase mid = v)"
proof -
  have "isAuthError text \<longleftrightarrow> (\<exists>v \<in> set authVocabulary. str_includes (toLowerCase text) v)"
    unfolding isAuthError_def Let_def authVocabulary_def by simp
  then show ?thesis by (simp only: includes_lower_iff)
qed

theorem isAuthError_iff_vocabulary_witness:
  "(\<exists>v \<in> set authVocabulary. \<exists>pre mid post.
       ''Error 401 Unauthorized'' = pre @ mid @ post \<and> toLowerCase mid = v) \<and>
   \<not> (\<exists>v \<in> set authVocabulary. \<exists>pre mid post.
       ''Mailbox not found'' = pre @ mid @ post \<and> toLowerCase mid = v)"
proof -
  have flagged: "isAuthError ''Error 401 Unauthorized''" by code_simp
  have clean: "\<not> isAuthError ''Mailbox not found''" by code_simp
  from flagged clean show ?thesis
    using isAuthError_iff_vocabulary [of "''Error 401 Unauthorized''"]
      isAuthError_iff_vocabulary [of "''Mailbox not found''"]
    by blast
qed

section \<open>Frame properties of the connection and the facade\<close>

text \<open>Neither the SDK call, the connection guard nor \<open>callTool\<close> touches the cache or the
  cache switch; \<open>callTool\<close> logs exactly one facade call.\<close>

lemma checkAuth_frame:
  "checkAuth env s = (r, s') \<Longrightarrow>
     cache s' = cache s \<and> cacheDisabled s' = cacheDisabled s \<and> facadeCalls s' = facadeCalls s"
  by (auto simp: checkAuth_def await_def sdkCallTool_def Let_def split: sum.splits if_splits)

lemma doConnect_frame:
  "doConnect env s = (r, s') \<Longrightarrow>
     cache s' = cache s \<and> cacheDisabled s' = cacheDisabled s \<and> facadeCalls s' = facadeCalls s"
  by (auto simp: doConnect_def Let_def split: option.splits if_splits dest!: checkAuth_frame)

lemma connect_frame:
  "connect env s = (r, s') \<Longrightarrow>
     cache s' = cache s \<and> cacheDisabled s' = cacheDisabled s \<and> facadeCalls s' = facadeCalls s"
  by (auto simp: connect_def split: option.splits sum.splits prod.splits dest!: doConnect_frame)

lemma callTool_frame:
  "callTool env name args s = (r, s') \<Longrightarrow>
     cache s' = cache s \<and> cacheDisabled s' = cacheDisabled s \<and>
     facadeCalls s' = facadeCalls s @ [(name, args)]"
  by (auto simp: callTool_def await_def Let_def sdkCallTool_def
       split: option.splits sum.splits prod.splits if_splits dest!: connect_frame)

lemma connect_facadeCalls:
  "connect env (s\<lparr>facadeCalls := x\<rparr>) =
     (fst (connect env s), (snd (connect env s))\<lparr>facadeCalls := x\<rparr>)"
  by (simp add: connect_def doConnect_def checkAuth_def await_def sdkCallTool_def Let_def
       split: option.splits sum.splits prod.splits)

text \<open>With the session up and the response \<open>r\<close> received, \<open>callTool\<close> is the case analysis
  of its body.\<close>

lemma callTool_unfold:
  assumes "fst (connect env s) = Inr ()"
      and "respond env (length (requests (snd (connect env s)))) name args = Inr r"
  shows "fst (callTool env name args s) =
     (if isError r then
        (if isAuthError (orElse (findText (content r)) ''Tool call failed'')
         then Inl (Error (''AUTHENTICATION_REQUIRED: '' @
                 orElse (findText (content r)) ''Tool call failed'' @ authRequiredSuffix))
         else Inl (Error (orElse (findText (content r)) ''Tool call failed'')))
      else
        (case findText (content r) of
           Some text \<Rightarrow>
             if text \<noteq> [] then
               (case JSON_parse env text of
                  Some parsed \<Rightarrow> Inr (Parsed parsed)
                | None \<Rightarrow> Inr (Text text))
             else Inr (Content (content r))
         | None \<Rightarrow> Inr (Content (content r))))"
proof -
  obtain s1 where up: "connect env s = (Inr (), s1)"
    using assms(1) by (cases "connect env s") auto
  with assms(2) have "respond env (length (requests s1)) name args = Inr r" by simp
  with up show ?thesis
    by (simp add: callTool_def Let_def await_def connect_facadeCalls sdkCallTool_def
          split: option.splits)
qed

lemma default_not_auth: "\<not> isAuthError ''Tool call failed''"
  by code_simp

lemma checkAuth_unfold:
  assumes "respond env (length (requests s)) ''verify-login'' [] = Inr r"
  shows "fst (checkAuth env s) =
     (if authenticatedBy (JSON_parse env) (orElse (findText (content r)) [])
      then Inr () else Inl (Error authRequiredMessage))"
  using assms by (simp add: checkAuth_def await_def sdkCallTool_def Let_def)

lemma connect_unfold:
  assumes "connectPromise s = None" and "handshake env (spawned s) = None"
      and "\<not> skipAuthCheck s"
  shows "fst (connect env s) = fst (checkAuth env s)"
proof -
  let ?s2 = "s\<lparr>sdkClient := Some (spawned s), spawned := spawned s + 1, connected := True\<rparr>"
  have same: "fst (checkAuth env ?s2) = fst (checkAuth env s)"
    by (simp add: checkAuth_def await_def sdkCallTool_def Let_def split: sum.splits)
  have "doConnect env s = checkAuth env ?s2"
    using assms by (simp add: doConnect_def Let_def)
  then have "fst (connect env s) = fst (checkAuth env ?s2)"
    using assms(1) by (cases "checkAuth env ?s2") (auto simp: connect_def split: sum.splits)
  with same show ?thesis by simp
qed

text \<open>The demo server: the first \<open>connect\<close> of a new client runs the preflight and succeeds.\<close>

lemma demo_connect:
  "connect demoServer (newClient c) =
     (Inr (), (newClient c)\<lparr>sdkClient := Some 0, spawned := 1, connected := True,
        requests := [(''verify-login'', [])], connectPromise := Some (Inr ())\<rparr>)"
  by (simp add: connect_def doConnect_def checkAuth_def await_def sdkCallTool_def Let_def
      newClient_def demoServer_def textResponse_def orElse_def findText_def authenticatedBy_def
      demoParse_def toLowerCase_def toLowerChar_def startsWith_def)

section \<open>The facade methods as one shape\<close>

text \<open>Every read method is \<open>getOrFetch\<close> around one \<open>callTool\<close>; every write method is one
  \<open>callTool\<close> followed, on success, by its invalidations.\<close>

lemma performRead_getOrFetch:
  "performRead env now r s =
     getOrFetch now (cacheKeyOf r) (callTool env (readTool r) (readArgs r)) (ttlOf r)
       (cacheDisabled s) s"
  by (cases r)
     (simp_all add: listMailMessages_def listMailFolders_def listMailFolderMessages_def
        getMailMessage_def listCalendars_def listCalendarEvents_def getCalendarEvent_def
        getCalendarView_def listContacts_def listTasks_def search_def)

lemma performWrite_callTool:
  "performWrite env w s =
     (case callTool env (writeTool w) (writeArgs w) s of
        (Inl err, s') \<Rightarrow> (Inl err, s')
      | (Inr result, s') \<Rightarrow> (Inr result, s'\<lparr>cache := invalidationsOf w (cache s')\<rparr>))"
  by (cases w)
     (simp_all add: sendMail_def createDraftEmail_def moveMailMessage_def deleteMailMessage_def
        createCalendarEvent_def updateCalendarEvent_def deleteCalendarEvent_def await_def
        split: prod.splits sum.splits)

lemma performWrite_fst:
  "fst (performWrite env w s) = fst (callTool env (writeTool w) (writeArgs w) s)"
  by (simp add: performWrite_callTool split: prod.splits sum.splits)

text \<open>The invalidations a write fires cover every documented pattern that is a key prefix
  or the detail entry of a message.\<close>

lemma matches_MessageDetail:
  "matches (MessageDetail messageId) r \<longleftrightarrow> r = GetMailMessage messageId"
  by (cases r) auto

lemma invalidationsOf_matches:
  "p \<in> set (documentedInvalidations w) \<Longrightarrow> (\<And>eventId. p \<noteq> EventDetail eventId) \<Longrightarrow>
     matches p r \<Longrightarrow> entries (invalidationsOf w c) (cacheKeyOf r) = None"
  by (cases w) (auto simp: invalidate_def invalidatePattern_def matches_MessageDetail)

lemma startsWith_createCacheKey: "startsWith (createCacheKey operation params) operation"
  by (simp add: createCacheKey_def startsWith_iff)

text \<open>The demo server answers every tool it has no special answer for with \<open>{}\<close>.\<close>

lemma demo_callTool_json:
  assumes "name \<notin> {''verify-login'', ''list-mail-messages'', ''login'', ''list-calendars'',
             ''send-mail'', ''search'', ''get-mail-message''}"
  shows "fst (callTool demoServer name args (newClient c)) = Inr (Parsed (JObject []))"
proof -
  have up: "fst (connect demoServer (newClient c)) = Inr ()" by (simp add: demo_connect)
  have "respond demoServer (length (requests (snd (connect demoServer (newClient c))))) name args
          = Inr (textResponse False ''{}'')"
    using assms by (simp add: demoServer_def)
  from callTool_unfold [OF up this] show ?thesis
    by (simp add: textResponse_def findText_def demoServer_def demoParse_def)
qed

lemma warm_keys:
  "cacheKeyOf (ListMailMessages []) = ''mail_messages''"
  "cacheKeyOf ListMailFolders = ''mail_folders''"
  "cacheKeyOf (ListMailFolderMessages ''f1'' []) = ''folder_messages:folderId=f1''"
  "cacheKeyOf (GetMailMessage ''m1'') = ''mail_message:id=m1''"
  "cacheKeyOf (GetMailMessage ''m2'') = ''mail_message:id=m2''"
  by (simp_all add: createCacheKey_def normalize_def spread_def)

lemma event_keys:
  "cacheKeyOf (GetCalendarEvent ''e1'' (JStr ''cal1'')) = ''calendar_event:calendarId=cal1:id=e1''"
  "createCacheKey ''calendar_event'' [(''id'', JStr ''e1''), (''calendarId'', JStr ''cal1'')] =
     ''calendar_event:calendarId=cal1:id=e1''"
  "createCacheKey ''calendar_event'' [(''id'', JStr ''e1''), (''calendarId'', JUndefined)] =
     ''calendar_event:id=e1''"
  by (simp_all add: createCacheKey_def normalize_def spread_def)

section \<open>Claim C4\<close>

text \<open>
  C4. Once the session is up and the server has answered the request with the envelope
  \<open>r\<close>, \<open>callTool\<close> classifies it. The text content of an envelope is the text \<open>t\<close> of its
  first item of type \<open>text\<close>, when that text is not empty. A non-error envelope whose text
  parses as JSON gives the parsed value; one whose text does not parse gives the text itself,
  as a value and not as an error; one without text content gives the raw content list. An
  error envelope whose text the authentication classifier flags raises the
  authentication-required error (the marker, the server's text, the instruction not to
  retry); one whose text is not flagged raises an error whose message is the server's text,
  verbatim; one without text raises the default message.
\<close>

theorem callTool_classifies:
  assumes "fst (connect env s) = Inr ()"
      and "respond env (length (requests (snd (connect env s)))) name args = Inr r"
  shows
    "(\<not> isError r \<and> findText (content r) = Some t \<and> t \<noteq> [] \<and> JSON_parse env t = Some j
        \<longrightarrow> fst (callTool env name args s) = Inr (Parsed j)) \<and>
     (\<not> isError r \<and> findText (content r) = Some t \<and> t \<noteq> [] \<and> JSON_parse env t = None
        \<longrightarrow> fst (callTool env name args s) = Inr (Text t)) \<and>
     (\<not> isError r \<and> (findText (content r) = None \<or> findText (content r) = Some [])
        \<longrightarrow> fst (callTool env name args s) = Inr (Content (content r))) \<and>
     (isError r \<and> findText (content r) = Some t \<and> t \<noteq> [] \<and> isAuthError t
        \<longrightarrow> fst (callTool env name args s) =
              Inl (Error (''AUTHENTICATION_REQUIRED: '' @ t @ authRequiredSuffix))) \<and>
     (isError r \<and> findText (content r) = Some t \<and> t \<noteq> [] \<and> \<not> isAuthError t
        \<longrightarrow> fst (callTool env name args s) = Inl (Error t)) \<and>
     (isError r \<and> (findText (content r) = None \<or> findText (content r) = Some [])
        \<longrightarrow> fst (callTool env name args s) = Inl (Error ''Tool call failed''))"
proof -
  note body = callTool_unfold [OF assms]
  have json: "\<not> isError r \<and> findText (content r) = Some t \<and> t \<noteq> [] \<and> JSON_parse env t = Some j
        \<longrightarrow> fst (callTool env name args s) = Inr (Parsed j)"
    by (simp add: body)
  have plain: "\<not> isError r \<and> findText (content r) = Some t \<and> t \<noteq> [] \<and> JSON_parse env t = None
        \<longrightarrow> fst (callTool env name args s) = Inr (Text t)"
    by (simp add: body)
  have raw: "\<not> isError r \<and> (findText (content r) = None \<or> findText (content r) = Some [])
        \<longrightarrow> fst (callTool env name args s) = Inr (Content (content r))"
    by (auto simp add: body)
  have auth: "isError r \<and> findText (content r) = Some t \<and> t \<noteq> [] \<and> isAuthError t
        \<longrightarrow> fst (callTool env name args s) =
              Inl (Error (''AUTHENTICATION_REQUIRED: '' @ t @ authRequiredSuffix))"
    by (simp add: body orElse_def)
  have generic: "isError r \<and> findText (content r) = Some t \<and> t \<noteq> [] \<and> \<not> isAuthError t
        \<longrightarrow> fst (callTool env name args s) = Inl (Error t)"
    by (simp add: body orElse_def)
  have silent: "isError r \<and> (findText (content r) = None \<or> findText (content r) = Some [])
        \<longrightarrow> fst (callTool env name args s) = Inl (Error ''Tool call failed'')"
  proof (intro impI)
    assume h: "isError r \<and> (findText (content r) = None \<or> findText (content r) = Some [])"
    then have "orElse (findText (content r)) ''Tool call failed'' = ''Tool call failed''"
      by (auto simp: orElse_def)
    with h default_not_auth
    show "fst (callTool env name args s) = Inl (Error ''Tool call failed'')"
      by (simp add: body)
  qed
  from json plain raw auth generic silent show ?thesis by blast
qed

theorem callTool_classifies_witness:
  "fst (callTool demoServer ''list-mail-messages'' [] (newClient emptyCache)) =
     Inr (Parsed (JArray [JNumber 1, JNumber 2])) \<and>
   fst (callTool demoServer ''login'' [] (newClient emptyCache)) =
     Inr (Text ''Open the browser to sign in'') \<and>
   fst (callTool demoServer ''list-calendars'' [] (newClient emptyCache)) =
     Inr (Content [\<lparr>item_type = ''image'', item_text = None\<rparr>]) \<and>
   fst (callTool demoServer ''send-mail'' [] (newClient emptyCache)) =
     Inl (Error (''AUTHENTICATION_REQUIRED: 401 Unauthorized'' @ authRequiredSuffix)) \<and>
   fst (callTool demoServer ''search'' [] (newClient emptyCache)) =
     Inl (Error ''Mailbox not found'')"
proof -
  let ?s = "newClient emptyCache"
  have up: "fst (connect demoServer ?s) = Inr ()"
    by (simp add: demo_connect)
  have n: "length (requests (snd (connect demoServer ?s))) = 1"
    by (simp add: demo_connect)
  have r1: "respond demoServer (length (requests (snd (connect demoServer ?s))))
              ''list-mail-messages'' [] = Inr (textResponse False ''[1,2]'')"
    unfolding n by (simp add: demoServer_def)
  have r2: "respond demoServer (length (requests (snd (connect demoServer ?s))))
              ''login'' [] = Inr (textResponse False ''Open the browser to sign in'')"
    unfolding n by (simp add: demoServer_def)
  have r3: "respond demoServer (length (requests (snd (connect demoServer ?s))))
              ''list-calendars'' [] =
            Inr \<lparr>isError = False, content = [\<lparr>item_type = ''image'', item_text = None\<rparr>]\<rparr>"
    unfolding n by (simp add: demoServer_def)
  have r4: "respond demoServer (length (requests (snd (connect demoServer ?s))))
              ''send-mail'' [] = Inr (textResponse True ''401 Unauthorized'')"
    unfolding n by (simp add: demoServer_def)
  have r5: "respond demoServer (length (requests (snd (connect demoServer ?s))))
              ''search'' [] = Inr (textResponse True ''Mailbox not found'')"
    unfolding n by (simp add: demoServer_def)
  have flagged: "isAuthError ''401 Unauthorized''" by code_simp
  have clean: "\<not> isAuthError ''Mailbox not found''" by code_simp
  have c1: "fst (callTool demoServer ''list-mail-messages'' [] ?s) =
              Inr (Parsed (JArray [JNumber 1, JNumber 2]))"
    using callTool_classifies [OF up r1, of "''[1,2]''" "JArray [JNumber 1, JNumber 2]"]
    by (simp add: textResponse_def findText_def demoServer_def demoParse_def)
  have c2: "fst (callTool demoServer ''login'' [] ?s) = Inr (Text ''Open the browser to sign in'')"
    using callTool_classifies [OF up r2, of "''Open the browser to sign in''"]
    by (simp add: textResponse_def findText_def demoServer_def demoParse_def)
  have c3: "fst (callTool demoServer ''list-calendars'' [] ?s) =
              Inr (Content [\<lparr>item_type = ''image'', item_text = None\<rparr>])"
    using callTool_classifies [OF up r3]
    by (simp add: findText_def)
  have c4: "fst (callTool demoServer ''send-mail'' [] ?s) =
              Inl (Error (''AUTHENTICATION_REQUIRED: 401 Unauthorized'' @ authRequiredSuffix))"
    using callTool_classifies [OF up r4, of "''401 Unauthorized''"] flagged
    by (simp add: textResponse_def findText_def)
  have c5: "fst (callTool demoServer ''search'' [] ?s) = Inl (Error ''Mailbox not found'')"
    using callTool_classifies [OF up r5, of "''Mailbox not found''"] clean
    by (simp add: textResponse_def findText_def)
  from c1 c2 c3 c4 c5 show ?thesis by blast
qed

section \<open>Claim C5\<close>

text \<open>
  C5. The claim: after a successful handshake and unless \<open>skipAuthCheck\<close> is set, \<open>connect\<close>
  sends the verify-login request and throws the authentication-required error whenever the
  server reports an unauthenticated state. The run below is a new client (\<open>skipAuthCheck\<close>
  unset) against a server whose verify-login answer is the plain text \<open>unauthenticated\<close>, a
  text that the client's own classifier \<open>isAuthError\<close> flags as an authentication failure.
  The request is sent, \<open>checkAuth\<close> finds the substring \<open>authenticated\<close> in the answer, and
  \<open>connect\<close> resolves instead of throwing.
\<close>

theorem connect_accepts_unauthenticated:
  "isAuthError ''unauthenticated'' \<and>
   \<not> skipAuthCheck (newClient emptyCache) \<and>
   fst (connect (plainTextServer ''unauthenticated'') (newClient emptyCache)) = Inr () \<and>
   requests (snd (connect (plainTextServer ''unauthenticated'') (newClient emptyCache))) =
     [(''verify-login'', [])]"
proof -
  have "isAuthError ''unauthenticated''" by code_simp
  moreover have "connect (plainTextServer ''unauthenticated'') (newClient emptyCache) =
     (Inr (), (newClient emptyCache)\<lparr>sdkClient := Some 0, spawned := 1, connected := True,
        requests := [(''verify-login'', [])], connectPromise := Some (Inr ())\<rparr>)"
    by (simp add: connect_def doConnect_def checkAuth_def await_def sdkCallTool_def Let_def
      newClient_def plainTextServer_def textResponse_def orElse_def findText_def
      authenticatedBy_def toLowerCase_def toLowerChar_def startsWith_def)
  ultimately show ?thesis by (simp add: newClient_def)
qed

section \<open>Claim C9\<close>

text \<open>
  C9. When the text of the verify-login answer is not valid JSON, \<open>checkAuth\<close> succeeds
  exactly when the lowercased text contains \<open>authenticated\<close> or \<open>login successful\<close>, and
  otherwise throws the authentication-required error. In particular the plain text
  \<open>unauthenticated\<close> contains \<open>authenticated\<close>, so a first \<open>connect\<close> (no stored promise,
  \<open>skipAuthCheck\<close> unset, handshake resolved) succeeds on that answer.
\<close>

theorem checkAuth_plain_text:
  assumes "respond env (length (requests s)) ''verify-login'' [] = Inr r"
      and "text = orElse (findText (content r)) []"
      and "JSON_parse env text = None"
  shows
    "(fst (checkAuth env s) = Inr () \<longleftrightarrow>
        (\<exists>pre post. toLowerCase text = pre @ ''authenticated'' @ post) \<or>
        (\<exists>pre post. toLowerCase text = pre @ ''login successful'' @ post)) \<and>
     (fst (checkAuth env s) = Inr () \<or> fst (checkAuth env s) = Inl (Error authRequiredMessage)) \<and>
     (text = ''unauthenticated'' \<and> connectPromise s = None \<and> \<not> skipAuthCheck s \<and>
      handshake env (spawned s) = None \<longrightarrow> fst (connect env s) = Inr ())"
proof -
  have decision: "authenticatedBy (JSON_parse env) text \<longleftrightarrow>
        (\<exists>pre post. toLowerCase text = pre @ ''authenticated'' @ post) \<or>
        (\<exists>pre post. toLowerCase text = pre @ ''login successful'' @ post)"
    using assms(3) by (simp add: authenticatedBy_def str_includes_iff)
  have result: "fst (checkAuth env s) =
     (if authenticatedBy (JSON_parse env) text then Inr () else Inl (Error authRequiredMessage))"
    using checkAuth_unfold [OF assms(1)] assms(2) by simp
  have exactly: "fst (checkAuth env s) = Inr () \<longleftrightarrow>
        (\<exists>pre post. toLowerCase text = pre @ ''authenticated'' @ post) \<or>
        (\<exists>pre post. toLowerCase text = pre @ ''login successful'' @ post)"
    using decision result by simp
  have either: "fst (checkAuth env s) = Inr () \<or>
                fst (checkAuth env s) = Inl (Error authRequiredMessage)"
    using result by simp
  have lowered: "toLowerCase ''unauthenticated'' = ''un'' @ ''authenticated'' @ []"
    by code_simp
  have particular: "text = ''unauthenticated'' \<and> connectPromise s = None \<and> \<not> skipAuthCheck s \<and>
      handshake env (spawned s) = None \<longrightarrow> fst (connect env s) = Inr ()"
  proof (intro impI, elim conjE)
    assume t: "text = ''unauthenticated''" and c: "connectPromise s = None"
      and k: "\<not> skipAuthCheck s" and h: "handshake env (spawned s) = None"
    from t lowered have "\<exists>pre post. toLowerCase text = pre @ ''authenticated'' @ post" by blast
    with exactly have "fst (checkAuth env s) = Inr ()" by blast
    with connect_unfold [OF c h k] show "fst (connect env s) = Inr ()" by simp
  qed
  from exactly either particular show ?thesis by blast
qed

theorem checkAuth_plain_text_witness:
  "fst (checkAuth (plainTextServer ''unauthenticated'') (newClient emptyCache)) = Inr () \<and>
   fst (connect (plainTextServer ''unauthenticated'') (newClient emptyCache)) = Inr () \<and>
   fst (checkAuth (plainTextServer ''Please sign in first'') (newClient emptyCache)) =
     Inl (Error authRequiredMessage)"
proof -
  let ?s = "newClient emptyCache"
  let ?yes = "''unauthenticated''" and ?no = "''Please sign in first''"
  have r: "\<And>t. respond (plainTextServer t) (length (requests ?s)) ''verify-login'' [] =
            Inr (textResponse False t)"
    by (simp add: plainTextServer_def)
  have t1: "?yes = orElse (findText (content (textResponse False ?yes))) []"
    by (simp add: textResponse_def findText_def orElse_def)
  have t2: "?no = orElse (findText (content (textResponse False ?no))) []"
    by (simp add: textResponse_def findText_def orElse_def)
  have np: "\<And>t u. JSON_parse (plainTextServer t) u = None"
    by (simp add: plainTextServer_def)
  have st: "connectPromise ?s = None \<and> \<not> skipAuthCheck ?s \<and>
            handshake (plainTextServer ?yes) (spawned ?s) = None"
    by (simp add: newClient_def plainTextServer_def)
  have low1: "toLowerCase ?yes = ''un'' @ ''authenticated'' @ []" by code_simp
  have no1: "\<not> str_includes (toLowerCase ?no) ''authenticated''" by code_simp
  have no2: "\<not> str_includes (toLowerCase ?no) ''login successful''" by code_simp
  have a: "fst (checkAuth (plainTextServer ?yes) ?s) = Inr () \<and>
           fst (connect (plainTextServer ?yes) ?s) = Inr ()"
    using checkAuth_plain_text [OF r t1 np] st low1 by blast
  have b: "fst (checkAuth (plainTextServer ?no) ?s) = Inl (Error authRequiredMessage)"
    using checkAuth_plain_text [OF r t2 np] no1 no2 unfolding str_includes_iff by blast
  from a b show ?thesis by blast
qed

section \<open>Claim C2\<close>

text \<open>
  C2. The claim: after a write has completed successfully, every cached entry that matches
  one of its documented invalidation patterns is absent from the cache. The doc comments of
  \<open>updateCalendarEvent\<close> and \<open>deleteCalendarEvent\<close> document \<open>calendar_event/{eventId}\<close>, the
  detail entry of the event. The run below starts with the detail entry of the event \<open>e1\<close>
  in the cache, stored by \<open>getCalendarEvent('e1', 'cal1')\<close>; its key is
  \<open>calendar_event:calendarId=cal1:id=e1\<close>. \<open>deleteCalendarEvent('e1')\<close> succeeds and
  invalidates the one key \<open>calendar_event:id=e1\<close>, built from the \<open>calendarId\<close> the write was
  given (none): the entry is still in the cache, and the next \<open>getCalendarEvent('e1',
  'cal1')\<close> within its 15 minutes returns the deleted event from the cache. The same entry
  survives \<open>updateCalendarEvent('e1', {subject: 'Standup'})\<close>.
\<close>

theorem event_detail_entry_survives:
  "EventDetail ''e1'' \<in> set (documentedInvalidations (DeleteCalendarEvent ''e1'' JUndefined)) \<and>
   EventDetail ''e1'' \<in>
     set (documentedInvalidations (UpdateCalendarEvent ''e1'' subjectOnlyOptions)) \<and>
   matches (EventDetail ''e1'') (GetCalendarEvent ''e1'' (JStr ''cal1'')) \<and>
   entries eventCache (cacheKeyOf (GetCalendarEvent ''e1'' (JStr ''cal1''))) =
     Some (cached (Text ''event e1 as it was'') FIFTEEN_MINUTES) \<and>
   fst (deleteCalendarEvent demoServer ''e1'' JUndefined (newClient eventCache)) =
     Inr (Parsed (JObject [])) \<and>
   entries (cache (snd (deleteCalendarEvent demoServer ''e1'' JUndefined (newClient eventCache))))
     (cacheKeyOf (GetCalendarEvent ''e1'' (JStr ''cal1''))) =
     Some (cached (Text ''event e1 as it was'') FIFTEEN_MINUTES) \<and>
   fst (getCalendarEvent demoServer 1000 ''e1'' (JStr ''cal1'')
          (snd (deleteCalendarEvent demoServer ''e1'' JUndefined (newClient eventCache)))) =
     Inr (Text ''event e1 as it was'') \<and>
   fst (updateCalendarEvent demoServer ''e1'' subjectOnlyOptions (newClient eventCache)) =
     Inr (Parsed (JObject [])) \<and>
   entries (cache (snd (updateCalendarEvent demoServer ''e1'' subjectOnlyOptions
                          (newClient eventCache))))
     (cacheKeyOf (GetCalendarEvent ''e1'' (JStr ''cal1''))) =
     Some (cached (Text ''event e1 as it was'') FIFTEEN_MINUTES)"
proof -
  let ?d = "DeleteCalendarEvent ''e1'' JUndefined"
  let ?u = "UpdateCalendarEvent ''e1'' subjectOnlyOptions"
  let ?s = "newClient eventCache"
  let ?k = "cacheKeyOf (GetCalendarEvent ''e1'' (JStr ''cal1''))"
  let ?e = "cached (Text ''event e1 as it was'') FIFTEEN_MINUTES"
  have doc: "EventDetail ''e1'' \<in> set (documentedInvalidations ?d) \<and>
             EventDetail ''e1'' \<in> set (documentedInvalidations ?u)"
    by simp
  have m: "matches (EventDetail ''e1'') (GetCalendarEvent ''e1'' (JStr ''cal1''))"
    by simp
  have held: "entries eventCache ?k = Some ?e"
    by (simp add: eventCache_def)
  have left: "entries (invalidationsOf ?d eventCache) ?k = Some ?e \<and>
              entries (invalidationsOf ?u eventCache) ?k = Some ?e"
    by (simp add: event_keys eventCache_def invalidate_def invalidatePattern_def
          startsWith_def subjectOnlyOptions_def field_def)
  have okd: "fst (performWrite demoServer ?d ?s) = Inr (Parsed (JObject []))"
    unfolding performWrite_fst by (simp add: demo_callTool_json)
  have oku: "fst (performWrite demoServer ?u ?s) = Inr (Parsed (JObject []))"
    unfolding performWrite_fst by (simp add: demo_callTool_json)
  obtain sd where cd: "callTool demoServer (writeTool ?d) (writeArgs ?d) ?s =
      (Inr (Parsed (JObject [])), sd)"
    using okd unfolding performWrite_fst by (metis prod.collapse)
  obtain su where cu: "callTool demoServer (writeTool ?u) (writeArgs ?u) ?s =
      (Inr (Parsed (JObject [])), su)"
    using oku unfolding performWrite_fst by (metis prod.collapse)
  have fd: "cache sd = eventCache \<and> cacheDisabled sd = False"
    using callTool_frame [OF cd] by (simp add: newClient_def)
  have fu: "cache su = eventCache"
    using callTool_frame [OF cu] by (simp add: newClient_def)
  have pd: "performWrite demoServer ?d ?s =
      (Inr (Parsed (JObject [])), sd\<lparr>cache := invalidationsOf ?d (cache sd)\<rparr>)"
    unfolding performWrite_callTool cd by simp
  have pu: "performWrite demoServer ?u ?s =
      (Inr (Parsed (JObject [])), su\<lparr>cache := invalidationsOf ?u (cache su)\<rparr>)"
    unfolding performWrite_callTool cu by simp
  have afterd: "entries (cache (snd (performWrite demoServer ?d ?s))) ?k = Some ?e"
    unfolding pd using left fd by simp
  have afteru: "entries (cache (snd (performWrite demoServer ?u ?s))) ?k = Some ?e"
    unfolding pu using left fu by simp
  have en: "enabled (invalidationsOf ?d eventCache)"
    by (simp add: eventCache_def invalidate_def invalidatePattern_def)
  have fr: "fresh 1000 ?e"
    by (simp add: fresh_def cached_def)
  have again: "fst (performRead demoServer 1000 (GetCalendarEvent ''e1'' (JStr ''cal1''))
                 (snd (performWrite demoServer ?d ?s))) = Inr (Text ''event e1 as it was'')"
    unfolding pd performRead_getOrFetch using left fd en fr
    by (simp add: getOrFetch_def cached_def)
  from doc m held okd afterd again oku afteru show ?thesis
    by simp
qed

text \<open>Every other documented pattern is honoured: after a successful write no read whose
  key has a documented prefix, and not the documented detail read of a message, has an
  entry.\<close>

lemma documented_patterns_invalidated:
  assumes "performWrite env w s = (Inr v, s')" and "p \<in> set (documentedInvalidations w)"
      and "\<And>eventId. p \<noteq> EventDetail eventId" and "matches p r"
  shows "entries (cache s') (cacheKeyOf r) = None"
proof -
  obtain s1 where "callTool env (writeTool w) (writeArgs w) s = (Inr v, s1)"
    and s': "s' = s1\<lparr>cache := invalidationsOf w (cache s1)\<rparr>"
    using assms(1)
    by (cases "callTool env (writeTool w) (writeArgs w) s")
       (auto simp: performWrite_callTool split: sum.splits)
  show ?thesis
    unfolding s' using invalidationsOf_matches [OF assms(2,3,4)] by simp
qed

section \<open>Claim C10\<close>

text \<open>
  C10. A write ends as its tool call ends, and the invalidations run only after the call
  has returned successfully: when the write throws (a connection failure, the
  authentication-required error or a generic tool error), the cache afterwards is the cache
  before, so every entry present before the call is still present.
\<close>

theorem write_error_keeps_cache:
  "fst (performWrite env w s) = fst (callTool env (writeTool w) (writeArgs w) s) \<and>
   (\<forall>err. fst (performWrite env w s) = Inl err \<longrightarrow>
      cache (snd (performWrite env w s)) = cache s)"
proof -
  obtain res s' where call: "callTool env (writeTool w) (writeArgs w) s = (res, s')"
    by (cases "callTool env (writeTool w) (writeArgs w) s")
  from callTool_frame [OF call] have "cache s' = cache s" by simp
  with call show ?thesis
    by (cases res) (simp_all add: performWrite_callTool)
qed

theorem write_error_keeps_cache_witness:
  "fst (performWrite demoServer (SendMail ''a@b.com'' ''hi'' ''body'' []) (newClient warmCache)) =
     Inl (Error (''AUTHENTICATION_REQUIRED: 401 Unauthorized'' @ authRequiredSuffix)) \<and>
   cache (snd (performWrite demoServer (SendMail ''a@b.com'' ''hi'' ''body'' [])
                 (newClient warmCache))) = warmCache \<and>
   entries warmCache (cacheKeyOf (ListMailMessages [])) \<noteq> None"
proof -
  let ?w = "SendMail ''a@b.com'' ''hi'' ''body'' []"
  let ?s = "newClient warmCache"
  have up: "fst (connect demoServer ?s) = Inr ()" by (simp add: demo_connect)
  have r: "respond demoServer (length (requests (snd (connect demoServer ?s))))
             (writeTool ?w) (writeArgs ?w) = Inr (textResponse True ''401 Unauthorized'')"
    by (simp add: demoServer_def)
  have flagged: "isAuthError ''401 Unauthorized''" by code_simp
  have thrown: "fst (callTool demoServer (writeTool ?w) (writeArgs ?w) ?s) =
     Inl (Error (''AUTHENTICATION_REQUIRED: 401 Unauthorized'' @ authRequiredSuffix))"
    using callTool_unfold [OF up r] flagged
    by (simp add: textResponse_def findText_def orElse_def)
  have held: "entries warmCache (cacheKeyOf (ListMailMessages [])) \<noteq> None"
    by (simp add: warmCache_def warm_keys)
  from write_error_keeps_cache [of demoServer ?w ?s] thrown held show ?thesis
    by (simp add: newClient_def)
qed

section \<open>Properties of read-through caching\<close>

lemma getOrFetch_disabled:
  "bypass \<or> \<not> enabled (cache s) \<Longrightarrow> getOrFetch now key producer ttl bypass s = producer s"
  by (simp add: getOrFetch_def)

lemma getOrFetch_hit:
  "\<not> bypass \<Longrightarrow> enabled (cache s) \<Longrightarrow> entries (cache s) key = Some e \<Longrightarrow> fresh now e \<Longrightarrow>
     getOrFetch now key producer ttl bypass s = (Inr (entry_value e), s)"
  by (simp add: getOrFetch_def)

lemma getOrFetch_miss:
  "\<not> bypass \<Longrightarrow> enabled (cache s) \<Longrightarrow> (\<forall>e. entries (cache s) key = Some e \<longrightarrow> \<not> fresh now e) \<Longrightarrow>
     getOrFetch now key producer ttl bypass s =
       (case producer s of
          (Inl err, s') \<Rightarrow> (Inl err, s')
        | (Inr v, s') \<Rightarrow> (Inr v, s'\<lparr>cache := store key v now (ttl_ms ttl) (cache s')\<rparr>))"
  by (auto simp add: getOrFetch_def await_def split: option.splits prod.splits sum.splits)

text \<open>A read that misses and succeeds: one facade call, and the result stored under the
  key of the read with the tier of the read.\<close>

lemma read_miss:
  assumes on: "\<not> cacheDisabled s" "enabled (cache s)"
      and miss: "\<forall>e. entries (cache s) (cacheKeyOf r) = Some e \<longrightarrow> \<not> fresh now e"
      and ok: "fst (performRead env now r s) = Inr v"
  shows "facadeCalls (snd (performRead env now r s)) = facadeCalls s @ [(readTool r, readArgs r)]"
    and "cache (snd (performRead env now r s)) = store (cacheKeyOf r) v now (ttl_ms (ttlOf r)) (cache s)"
    and "cacheDisabled (snd (performRead env now r s)) = cacheDisabled s"
proof -
  obtain res s1 where call: "callTool env (readTool r) (readArgs r) s = (res, s1)"
    by (cases "callTool env (readTool r) (readArgs r) s")
  note frame = callTool_frame [OF call]
  have run: "performRead env now r s =
       (case res of Inl err \<Rightarrow> (Inl err, s1)
        | Inr v \<Rightarrow> (Inr v, s1\<lparr>cache := store (cacheKeyOf r) v now (ttl_ms (ttlOf r)) (cache s1)\<rparr>))"
    using on miss call by (simp add: performRead_getOrFetch getOrFetch_miss split: sum.splits)
  from ok run have res: "res = Inr v" by (cases res) auto
  show "facadeCalls (snd (performRead env now r s)) = facadeCalls s @ [(readTool r, readArgs r)]"
    using run res frame by simp
  show "cache (snd (performRead env now r s)) = store (cacheKeyOf r) v now (ttl_ms (ttlOf r)) (cache s)"
    using run res frame by simp
  show "cacheDisabled (snd (performRead env now r s)) = cacheDisabled s"
    using run res frame by simp
qed

lemma second_read_hits:
  assumes "\<not> cacheDisabled s" and "enabled (cache s)"
      and "\<forall>e. entries (cache s) (cacheKeyOf r) = Some e \<longrightarrow> \<not> fresh t1 e"
      and "fst (performRead env t1 r s) = Inr v"
      and "s1 = snd (performRead env t1 r s)"
      and "cacheKeyOf r' = cacheKeyOf r"
      and "t1 \<le> t2" and "t2 < t1 + ttl_ms (ttlOf r)"
  shows "performRead env t2 r' s1 = (Inr v, s1) \<and>
         facadeCalls s1 = facadeCalls s @ [(readTool r, readArgs r)]"
proof -
  note m = read_miss [OF assms(1-4)]
  have c: "cache s1 = store (cacheKeyOf r) v t1 (ttl_ms (ttlOf r)) (cache s)"
    using m(2) assms(5) by simp
  have d: "\<not> cacheDisabled s1" using m(3) assms(1,5) by simp
  have e: "enabled (cache s1)" using c assms(2) by (simp add: store_def)
  have f: "entries (cache s1) (cacheKeyOf r') =
             Some \<lparr>entry_value = v, entry_createdAt = t1, entry_ttl = ttl_ms (ttlOf r)\<rparr>"
    using c assms(6) by (simp add: store_def)
  have g: "fresh t2 \<lparr>entry_value = v, entry_createdAt = t1, entry_ttl = ttl_ms (ttlOf r)\<rparr>"
    using assms(8) by (simp add: fresh_def)
  have "performRead env t2 r' s1 = (Inr v, s1)"
    using getOrFetch_hit [OF d e f g] by (simp add: performRead_getOrFetch)
  moreover have "facadeCalls s1 = facadeCalls s @ [(readTool r, readArgs r)]"
    using m(1) assms(5) by simp
  ultimately show ?thesis by simp
qed

lemma read_without_cache:
  assumes "cacheDisabled s \<or> \<not> enabled (cache s)"
  shows "performRead env now r s = callTool env (readTool r) (readArgs r) s \<and>
         cache (snd (performRead env now r s)) = cache s \<and>
         facadeCalls (snd (performRead env now r s)) = facadeCalls s @ [(readTool r, readArgs r)]"
proof -
  have a: "performRead env now r s = callTool env (readTool r) (readArgs r) s"
    using assms by (simp add: performRead_getOrFetch getOrFetch_disabled)
  obtain res s1 where call: "callTool env (readTool r) (readArgs r) s = (res, s1)"
    by (cases "callTool env (readTool r) (readArgs r) s")
  from callTool_frame [OF call] a call show ?thesis by simp
qed


lemma read_miss_fst:
  assumes "\<not> cacheDisabled s" "enabled (cache s)"
      and "\<forall>e. entries (cache s) (cacheKeyOf r) = Some e \<longrightarrow> \<not> fresh now e"
  shows "fst (performRead env now r s) = fst (callTool env (readTool r) (readArgs r) s)"
  using assms
  by (simp add: performRead_getOrFetch getOrFetch_miss split: prod.splits sum.splits)

lemma new_client_caching:
  "\<not> cacheDisabled (newClient emptyCache)" "enabled (cache (newClient emptyCache))"
  "\<forall>e. entries (cache (newClient emptyCache)) k = Some e \<longrightarrow> \<not> fresh now e"
  by (simp_all add: newClient_def emptyCache_def)

lemma demo_read_json:
  assumes "readTool r \<notin> {''verify-login'', ''list-mail-messages'', ''login'', ''list-calendars'',
             ''send-mail'', ''search'', ''get-mail-message''}"
  shows "fst (performRead demoServer now r (newClient emptyCache)) = Inr (Parsed (JObject []))"
  using read_miss_fst [OF new_client_caching] demo_callTool_json [OF assms] by simp

lemma demo_list_messages:
  "fst (callTool demoServer ''list-mail-messages'' args (newClient c)) =
     Inr (Parsed (JArray [JNumber 1, JNumber 2]))"
proof -
  have up: "fst (connect demoServer (newClient c)) = Inr ()" by (simp add: demo_connect)
  have "respond demoServer (length (requests (snd (connect demoServer (newClient c)))))
          ''list-mail-messages'' args = Inr (textResponse False ''[1,2]'')"
    by (simp add: demoServer_def)
  from callTool_unfold [OF up this] show ?thesis
    by (simp add: textResponse_def findText_def demoServer_def demoParse_def)
qed

section \<open>Claim C6\<close>

text \<open>
  C6. With caching enabled, let a read miss the cache at time \<open>t1\<close> and succeed with the
  value \<open>v\<close>, and let the same read (a call with the same cache key, that is the same
  operation and normalized arguments) be issued again at a time \<open>t2\<close> inside the TTL window
  of the read. Then the second invocation returns \<open>v\<close> and changes nothing: the log of
  facade calls after both invocations holds exactly one call more than before, the call of
  the first. With caching disabled (the client's switch, which is also what the reads pass
  as \<open>bypassCache\<close>), a read is the tool call itself: it logs one facade call at every
  invocation and the cache afterwards is the cache before.
\<close>

theorem read_through_cache:
  "(\<not> cacheDisabled s \<and> enabled (cache s) \<and>
    (\<forall>e. entries (cache s) (cacheKeyOf r) = Some e \<longrightarrow> \<not> fresh t1 e) \<and>
    fst (performRead env t1 r s) = Inr v \<and> s1 = snd (performRead env t1 r s) \<and>
    cacheKeyOf r' = cacheKeyOf r \<and> t1 \<le> t2 \<and> t2 < t1 + ttl_ms (ttlOf r)
    \<longrightarrow> performRead env t2 r' s1 = (Inr v, s1) \<and>
        facadeCalls s1 = facadeCalls s @ [(readTool r, readArgs r)]) \<and>
   (cacheDisabled s \<or> \<not> enabled (cache s)
    \<longrightarrow> performRead env now r s = callTool env (readTool r) (readArgs r) s \<and>
        cache (snd (performRead env now r s)) = cache s \<and>
        facadeCalls (snd (performRead env now r s)) =
          facadeCalls s @ [(readTool r, readArgs r)])"
  using second_read_hits [of s r t1 env v s1 r' t2] read_without_cache [of s env now r]
  by blast

theorem read_through_cache_witness:
  "performRead demoServer 299999
      (ListMailMessages [(''skip'', JUndefined), (''top'', JNum 10)])
      (snd (performRead demoServer 0 (ListMailMessages [(''top'', JNum 10)])
              (newClient emptyCache))) =
     (Inr (Parsed (JArray [JNumber 1, JNumber 2])),
      snd (performRead demoServer 0 (ListMailMessages [(''top'', JNum 10)])
              (newClient emptyCache))) \<and>
   facadeCalls (snd (performRead demoServer 0 (ListMailMessages [(''top'', JNum 10)])
              (newClient emptyCache))) = [(''list-mail-messages'', [(''top'', JNum 10)])] \<and>
   cache (snd (performRead demoServer 0 (ListMailMessages [(''top'', JNum 10)])
              (disableCache (newClient emptyCache)))) = disable emptyCache \<and>
   facadeCalls (snd (performRead demoServer 0 (ListMailMessages [(''top'', JNum 10)])
              (disableCache (newClient emptyCache)))) =
     [(''list-mail-messages'', [(''top'', JNum 10)])]"
proof -
  let ?r = "ListMailMessages [(''top'', JNum 10)]"
  let ?r' = "ListMailMessages [(''skip'', JUndefined), (''top'', JNum 10)]"
  let ?s = "newClient emptyCache"
  have "fst (performRead demoServer 0 ?r ?s) =
          fst (callTool demoServer (readTool ?r) (readArgs ?r) ?s)"
    by (rule read_miss_fst) (simp_all add: new_client_caching)
  then have first:
    "fst (performRead demoServer 0 ?r ?s) = Inr (Parsed (JArray [JNumber 1, JNumber 2]))"
    by (simp add: demo_list_messages)
  have key: "cacheKeyOf ?r' = cacheKeyOf ?r"
    by (simp add: createCacheKey_def normalize_def)
  have on: "\<not> cacheDisabled ?s \<and> enabled (cache ?s)"
    by (simp add: new_client_caching)
  have miss: "\<forall>e. entries (cache ?s) (cacheKeyOf ?r) = Some e \<longrightarrow> \<not> fresh 0 e"
    by (simp add: new_client_caching)
  have window: "(0::nat) \<le> 299999 \<and> (299999::nat) < 0 + ttl_ms (ttlOf ?r)" by simp
  have off: "cacheDisabled (disableCache ?s) \<and> cache (disableCache ?s) = disable emptyCache \<and>
             facadeCalls (disableCache ?s) = []"
    by (simp add: disableCache_def newClient_def)
  from read_through_cache [where s = ?s and r = ?r and ?t1.0 = 0 and env = demoServer
         and v = "Parsed (JArray [JNumber 1, JNumber 2])"
         and ?s1.0 = "snd (performRead demoServer 0 ?r ?s)" and r' = ?r' and ?t2.0 = 299999]
       on miss first key window
  have hit: "performRead demoServer 299999 ?r' (snd (performRead demoServer 0 ?r ?s)) =
     (Inr (Parsed (JArray [JNumber 1, JNumber 2])), snd (performRead demoServer 0 ?r ?s)) \<and>
     facadeCalls (snd (performRead demoServer 0 ?r ?s)) =
       facadeCalls ?s @ [(readTool ?r, readArgs ?r)]"
    by blast
  from read_through_cache [where s = "disableCache ?s" and r = ?r and env = demoServer
         and now = 0] off
  have "cache (snd (performRead demoServer 0 ?r (disableCache ?s))) = cache (disableCache ?s) \<and>
     facadeCalls (snd (performRead demoServer 0 ?r (disableCache ?s))) =
       facadeCalls (disableCache ?s) @ [(readTool ?r, readArgs ?r)]"
    by blast
  with off
  have through: "cache (snd (performRead demoServer 0 ?r (disableCache ?s))) = disable emptyCache \<and>
     facadeCalls (snd (performRead demoServer 0 ?r (disableCache ?s))) =
       [(readTool ?r, readArgs ?r)]"
    by simp
  have none: "facadeCalls ?s = []" by (simp add: newClient_def)
  from hit through show ?thesis
    unfolding none by (simp add: assignIfTruthy_def field_def)
qed

section \<open>Claim C7\<close>

text \<open>
  C7, as amended. A read that misses and succeeds stores its result under its key with the
  creation time of the read and a TTL of: 5 minutes for message lists (inbox and folder),
  task lists and search; 15 minutes for the single-item fetches (message, event), the
  calendar view, and also the event list and the contact list; 1 hour for the folder list
  and the calendar list.
\<close>

theorem read_stores_with_tier:
  assumes "\<not> cacheDisabled s" and "enabled (cache s)"
      and "\<forall>e. entries (cache s) (cacheKeyOf r) = Some e \<longrightarrow> \<not> fresh now e"
      and "fst (performRead env now r s) = Inr v"
  shows "entries (cache (snd (performRead env now r s))) (cacheKeyOf r) =
     Some \<lparr>entry_value = v, entry_createdAt = now,
           entry_ttl = 60000 *
             (case r of
                ListMailMessages _ \<Rightarrow> 5
              | ListMailFolderMessages _ _ \<Rightarrow> 5
              | ListTasks _ \<Rightarrow> 5
              | Search _ _ \<Rightarrow> 5
              | GetMailMessage _ \<Rightarrow> 15
              | GetCalendarEvent _ _ \<Rightarrow> 15
              | GetCalendarView _ _ _ \<Rightarrow> 15
              | ListCalendarEvents _ \<Rightarrow> 15
              | ListContacts _ \<Rightarrow> 15
              | ListMailFolders \<Rightarrow> 60
              | ListCalendars \<Rightarrow> 60)\<rparr>"
proof -
  have "ttl_ms (ttlOf r) = 60000 *
             (case r of
                ListMailMessages _ \<Rightarrow> 5
              | ListMailFolderMessages _ _ \<Rightarrow> 5
              | ListTasks _ \<Rightarrow> 5
              | Search _ _ \<Rightarrow> 5
              | GetMailMessage _ \<Rightarrow> 15
              | GetCalendarEvent _ _ \<Rightarrow> 15
              | GetCalendarView _ _ _ \<Rightarrow> 15
              | ListCalendarEvents _ \<Rightarrow> 15
              | ListContacts _ \<Rightarrow> 15
              | ListMailFolders \<Rightarrow> 60
              | ListCalendars \<Rightarrow> 60)"
    by (cases r) simp_all
  with read_miss(2) [OF assms] show ?thesis by (simp add: store_def)
qed

theorem read_stores_with_tier_witness:
  "entries (cache (snd (performRead demoServer 7 (ListTasks []) (newClient emptyCache))))
     (cacheKeyOf (ListTasks [])) =
     Some \<lparr>entry_value = Parsed (JObject []), entry_createdAt = 7, entry_ttl = 300000\<rparr> \<and>
   entries (cache (snd (performRead demoServer 7 (GetCalendarEvent ''e1'' JUndefined)
     (newClient emptyCache)))) (cacheKeyOf (GetCalendarEvent ''e1'' JUndefined)) =
     Some \<lparr>entry_value = Parsed (JObject []), entry_createdAt = 7, entry_ttl = 900000\<rparr> \<and>
   entries (cache (snd (performRead demoServer 7 ListMailFolders (newClient emptyCache))))
     (cacheKeyOf ListMailFolders) =
     Some \<lparr>entry_value = Parsed (JObject []), entry_createdAt = 7, entry_ttl = 3600000\<rparr>"
proof -
  have a: "fst (performRead demoServer 7 (ListTasks []) (newClient emptyCache)) =
             Inr (Parsed (JObject []))"
    by (rule demo_read_json) simp
  have b: "fst (performRead demoServer 7 (GetCalendarEvent ''e1'' JUndefined)
             (newClient emptyCache)) = Inr (Parsed (JObject []))"
    by (rule demo_read_json) simp
  have c: "fst (performRead demoServer 7 ListMailFolders (newClient emptyCache)) =
             Inr (Parsed (JObject []))"
    by (rule demo_read_json) simp
  from read_stores_with_tier [OF new_client_caching a]
       read_stores_with_tier [OF new_client_caching b]
       read_stores_with_tier [OF new_client_caching c]
  show ?thesis by simp
qed

text \<open>
  The claim as stated has every list-style read cached for 5 minutes. The event list and
  the contact list are stored with 15 minutes (900000 ms, against 300000 ms for the
  5-minute tier), as their doc comments say.
\<close>

theorem event_and_contact_lists_fifteen_minutes:
  "map_option entry_ttl
     (entries (cache (snd (performRead demoServer 0 (ListCalendarEvents []) (newClient emptyCache))))
        (cacheKeyOf (ListCalendarEvents []))) = Some 900000 \<and>
   map_option entry_ttl
     (entries (cache (snd (performRead demoServer 0 (ListContacts []) (newClient emptyCache))))
        (cacheKeyOf (ListContacts []))) = Some 900000 \<and>
   ttl_ms FIVE_MINUTES = 300000"
proof -
  have a: "fst (performRead demoServer 0 (ListCalendarEvents []) (newClient emptyCache)) =
             Inr (Parsed (JObject []))"
    by (rule demo_read_json) simp
  have b: "fst (performRead demoServer 0 (ListContacts []) (newClient emptyCache)) =
             Inr (Parsed (JObject []))"
    by (rule demo_read_json) simp
  from read_miss(2) [OF new_client_caching a] read_miss(2) [OF new_client_caching b]
  show ?thesis by (simp add: store_def)
qed

section \<open>Properties of argument objects and cache keys\<close>

lemma keys_assign: "fst ` set (assign k v args) = insert k (fst ` set args)"
proof (induction args)
  case Nil
  show ?case by simp
next
  case (Cons p args)
  obtain k' v' where p: "p = (k', v')" by (cases p)
  show ?case
  proof (cases "k' = k")
    case True
    with p show ?thesis by auto
  next
    case False
    with p Cons.IH show ?thesis by auto
  qed
qed

lemma field_assign:
  "field (assign k v args) k' = (if k' = k then v else field args k')"
  by (induction args) (auto simp: field_def)

lemma keys_assignIfTruthy:
  "fst ` set (assignIfTruthy options k args) =
     (if truthy (field options k) then insert k (fst ` set args) else fst ` set args)"
  by (simp add: assignIfTruthy_def keys_assign)

lemma field_assignIfTruthy:
  "field (assignIfTruthy options k args) k' =
     (if k' = k \<and> truthy (field options k) then field options k else field args k')"
  by (simp add: assignIfTruthy_def field_assign)

lemma keys_assignParamIfTruthy:
  "fst ` set (assignParamIfTruthy k x args) =
     (if truthy x then insert k (fst ` set args) else fst ` set args)"
  by (simp add: assignParamIfTruthy_def keys_assign)

lemma field_assignParamIfTruthy:
  "field (assignParamIfTruthy k x args) k' =
     (if k' = k \<and> truthy x then x else field args k')"
  by (simp add: assignParamIfTruthy_def field_assign)

lemma keys_foldl_assign:
  "fst ` set (foldl (\<lambda>acc (k, v). assign k v acc) base options) =
     fst ` set base \<union> fst ` set options"
proof (induction options arbitrary: base)
  case Nil
  show ?case by simp
next
  case (Cons p options)
  obtain k' v' where p: "p = (k', v')" by (cases p)
  have "fst ` set (foldl (\<lambda>acc (k, v). assign k v acc) (assign k' v' base) options) =
          insert k' (fst ` set base) \<union> fst ` set options"
    by (simp add: Cons.IH keys_assign)
  with p show ?case by auto
qed

lemma keys_spread: "fst ` set (spread base options) = fst ` set base \<union> fst ` set options"
  by (simp add: spread_def keys_foldl_assign)

lemma field_foldl_assign_other:
  "k \<notin> fst ` set options \<Longrightarrow>
     field (foldl (\<lambda>acc (k, v). assign k v acc) base options) k = field base k"
proof (induction options arbitrary: base)
  case Nil
  show ?case by simp
next
  case (Cons p options)
  obtain k' v' where p: "p = (k', v')" by (cases p)
  with Cons.prems have "k \<noteq> k'" and "k \<notin> fst ` set options" by auto
  with Cons.IH [of "assign k' v' base"] p show ?case by (simp add: field_assign)
qed

lemma field_foldl_assign:
  assumes "distinct (map fst options)"
  shows "field (foldl (\<lambda>acc (k, v). assign k v acc) base options) k =
           (if k \<in> fst ` set options then field options k else field base k)"
  using assms
proof (induction options arbitrary: base)
  case Nil
  then show ?case by simp
next
  case (Cons p options)
  obtain k0 v0 where p: "p = (k0, v0)" by (cases p)
  from Cons.prems p have notin: "k0 \<notin> fst ` set options" and d: "distinct (map fst options)"
    by auto
  show ?case
  proof (cases "k = k0")
    case True
    with notin have "field (foldl (\<lambda>acc (k, v). assign k v acc) (assign k0 v0 base) options) k
                       = field (assign k0 v0 base) k"
      by (simp add: field_foldl_assign_other)
    moreover have "field (assign k0 v0 base) k = v0" using True by (simp add: field_assign)
    moreover have "field (p # options) k = v0" using True p by (simp add: field_def)
    ultimately show ?thesis using True p by simp
  next
    case False
    have "field (p # options) k = field options k" using False p by (simp add: field_def)
    with False Cons.IH [OF d, of "assign k0 v0 base"] p show ?thesis
      by (auto simp: field_assign)
  qed
qed

lemma field_spread:
  "distinct (map fst options) \<Longrightarrow>
     field (spread base options) k =
       (if k \<in> fst ` set options then field options k else field base k)"
  by (simp add: spread_def field_foldl_assign)

lemma sort_key_fst_unique:
  assumes "distinct (map fst xs)" and "distinct (map fst ys)" and "set xs = set ys"
  shows "sort_key fst xs = sort_key fst ys"
proof (rule map_sorted_distinct_set_unique [where f = fst])
  from assms(1) have "inj_on fst (set xs)" by (simp add: distinct_map)
  with assms(3) show "inj_on fst (set (sort_key fst xs) \<union> set (sort_key fst ys))" by simp
  show "sorted (map fst (sort_key fst xs))" by simp
  show "sorted (map fst (sort_key fst ys))" by simp
  show "distinct (map fst (sort_key fst xs))" using assms(1) by (simp add: distinct_map)
  show "distinct (map fst (sort_key fst ys))" using assms(2) by (simp add: distinct_map)
  show "set (sort_key fst xs) = set (sort_key fst ys)" using assms(3) by simp
qed

lemma normalize_order:
  assumes "distinct (map fst options)" and "distinct (map fst options')"
      and "set options = set options'"
  shows "normalize options = normalize options'"
  unfolding normalize_def
  by (rule sort_key_fst_unique) (simp_all add: assms distinct_map_filter)

lemma normalize_defined:
  "normalize (filter (\<lambda>(k, v). v \<noteq> JUndefined) options) = normalize options"
  by (simp add: normalize_def)

lemma field_Nil: "field [] k = JUndefined"
  by (simp add: field_def)

lemma field_Cons: "field ((k', v) # rest) k = (if k = k' then v else field rest k)"
  by (simp add: field_def)

text \<open>A chain of \<open>if (options?.k) args.k = options.k\<close> statements is a fold over the names.\<close>

lemma keys_chain:
  "fst ` set (foldl (\<lambda>args k. assignIfTruthy options k args) base names) =
     fst ` set base \<union> {k \<in> set names. truthy (field options k)}"
  by (induction names arbitrary: base) (auto simp: keys_assignIfTruthy)

lemma field_chain:
  "field (foldl (\<lambda>args k. assignIfTruthy options k args) base names) k =
     (if k \<in> set names \<and> truthy (field options k) then field options k else field base k)"
  by (induction names arbitrary: base) (auto simp: field_assignIfTruthy)

lemma chain_optionals:
  assumes "(k, x) \<in> set (given options names)" and "set names \<inter> fst ` set base = {}"
  shows "(k \<in> fst ` set (foldl (\<lambda>args k. assignIfTruthy options k args) base names)
            \<longleftrightarrow> truthy x) \<and>
         (truthy x \<longrightarrow>
            field (foldl (\<lambda>args k. assignIfTruthy options k args) base names) k = x)"
proof -
  from assms(1) have k: "k \<in> set names" and x: "x = field options k"
    by (auto simp: given_def)
  with assms(2) have "k \<notin> fst ` set base" by blast
  with k x show ?thesis by (simp add: keys_chain field_chain)
qed

lemma param_optional:
  assumes "k \<notin> fst ` set base"
  shows "(k \<in> fst ` set (assignParamIfTruthy k x base) \<longleftrightarrow> truthy x) \<and>
         (truthy x \<longrightarrow> field (assignParamIfTruthy k x base) k = x)"
  using assms by (simp add: keys_assignParamIfTruthy field_assignParamIfTruthy)

lemma read_optionals:
  assumes "(k, x) \<in> set (readOptionals r)"
  shows "(k \<in> fst ` set (readArgs r) \<longleftrightarrow> truthy x) \<and>
         (truthy x \<longrightarrow> field (readArgs r) k = x)"
proof (cases r)
  case (ListMailMessages options)
  with assms chain_optionals [of k x options "[''top'', ''skip'', ''filter'', ''orderBy'']" "[]"]
  show ?thesis by simp
next
  case (ListMailFolderMessages folderId options)
  with assms chain_optionals [of k x options "[''top'', ''skip'']" "[(''mailFolderId'', JStr folderId)]"]
  show ?thesis by simp
next
  case (ListCalendarEvents options)
  with assms chain_optionals [of k x options "[''calendarId'', ''top'']" "[]"]
  show ?thesis by simp
next
  case (GetCalendarEvent eventId calendarId)
  with assms param_optional [of "''calendarId''" "[(''eventId'', JStr eventId)]" calendarId]
  show ?thesis by simp
next
  case (GetCalendarView start end' calendarId)
  with assms param_optional [of "''calendarId''"
      "[(''startDateTime'', JStr start), (''endDateTime'', JStr end')]" calendarId]
  show ?thesis by simp
next
  case (ListContacts options)
  with assms chain_optionals [of k x options "[''top'', ''skip'']" "[]"]
  show ?thesis by simp
next
  case (ListTasks options)
  with assms chain_optionals [of k x options "[''listId'', ''top'']" "[]"]
  show ?thesis by simp
next
  case (Search query entityTypes)
  with assms param_optional [of "''entityTypes''" "[(''query'', JStr query)]" entityTypes]
  show ?thesis by simp
qed (use assms in simp_all)

lemma write_optionals:
  assumes "\<nexists>eventId options. w = UpdateCalendarEvent eventId options"
      and "(k, x) \<in> set (writeOptionals w)"
  shows "(k \<in> fst ` set (writeArgs w) \<longleftrightarrow> truthy x) \<and>
         (truthy x \<longrightarrow> field (writeArgs w) k = x)"
proof (cases w)
  case (SendMail to subject body options)
  with assms(2) chain_optionals [of k x options "[''cc'', ''bodyType'']"
      "[(''to'', JStr to), (''subject'', JStr subject), (''body'', JStr body)]"]
  show ?thesis by simp
next
  case (CreateDraftEmail to subject body options)
  with assms(2) chain_optionals [of k x options "[''cc'']"
      "[(''to'', JStr to), (''subject'', JStr subject), (''body'', JStr body)]"]
  show ?thesis by simp
next
  case (CreateCalendarEvent subject start end' options)
  with assms(2) chain_optionals [of k x options
      "[''body'', ''location'', ''attendees'', ''calendarId'']"
      "[(''subject'', JStr subject), (''start'', JStr start), (''end'', JStr end')]"]
  show ?thesis by simp
next
  case (UpdateCalendarEvent eventId options)
  with assms(1) show ?thesis by simp
next
  case (DeleteCalendarEvent eventId calendarId)
  with assms(2) param_optional [of "''calendarId''" "[(''eventId'', JStr eventId)]" calendarId]
  show ?thesis by simp
qed (use assms in simp_all)

lemma update_arguments:
  assumes "distinct (map fst options)" and "''eventId'' \<notin> fst ` set options"
  shows "(k \<in> fst ` set (writeArgs (UpdateCalendarEvent eventId options)) \<longleftrightarrow>
            k = ''eventId'' \<or> k \<in> fst ` set options) \<and>
         field (writeArgs (UpdateCalendarEvent eventId options)) k =
           (if k = ''eventId'' then JStr eventId else field options k)"
proof -
  have base: "field [(''eventId'', JStr eventId)] k =
                (if k = ''eventId'' then JStr eventId else JUndefined)"
    by (simp add: field_def)
  have undef: "field options k = JUndefined" if "k \<notin> fst ` set options"
  proof -
    from that have "map_of options k = None" by (simp add: map_of_eq_None_iff)
    then show ?thesis by (simp add: field_def)
  qed
  have keys: "k \<in> fst ` set (writeArgs (UpdateCalendarEvent eventId options)) \<longleftrightarrow>
            k = ''eventId'' \<or> k \<in> fst ` set options"
    by (simp add: keys_spread)
  have val: "field (writeArgs (UpdateCalendarEvent eventId options)) k =
           (if k = ''eventId'' then JStr eventId else field options k)"
  proof (cases "k \<in> fst ` set options")
    case True
    with assms(2) have "k \<noteq> ''eventId''" by blast
    with True show ?thesis by (simp add: field_spread [OF assms(1)])
  next
    case False
    with undef base show ?thesis by (simp add: field_spread [OF assms(1)])
  qed
  from keys val show ?thesis by simp
qed


lemma createCacheKey_order:
  assumes "distinct (map fst options)" and "distinct (map fst options')"
      and "set options = set options'"
  shows "createCacheKey operation options = createCacheKey operation options'"
  by (simp add: createCacheKey_def normalize_order [OF assms])

lemma createCacheKey_defined:
  "createCacheKey operation (filter (\<lambda>(k, v). v \<noteq> JUndefined) options) =
     createCacheKey operation options"
  by (simp add: createCacheKey_def normalize_defined)

lemma performWrite_facadeCalls:
  "facadeCalls (snd (performWrite env w s)) = facadeCalls s @ [(writeTool w, writeArgs w)]"
proof -
  obtain res s' where call: "callTool env (writeTool w) (writeArgs w) s = (res, s')"
    by (cases "callTool env (writeTool w) (writeArgs w) s")
  from callTool_frame [OF call] call show ?thesis
    by (cases res) (simp_all add: performWrite_callTool)
qed

section \<open>Claim C8\<close>

text \<open>
  C8, as amended. The methods that add their optional parameters one by one pass an
  argument object that has a key for an optional parameter exactly when the caller gave a
  truthy value for it (a non-zero number, a non-empty string), and then with that value:
  a parameter left out, the number 0 and the empty string are all omitted.
  \<open>updateCalendarEvent\<close> passes \<open>eventId\<close> followed by the fields of its options object as
  they are, so the object has a key for every field of the options object, also for one
  whose value is undefined or empty. A cache key does not depend on the order of the fields
  of the object it is derived from, nor on its undefined fields. The argument objects
  spoken of, \<open>readArgs\<close> and \<open>writeArgs\<close>, are the ones passed to \<open>callTool\<close>.
\<close>

theorem arguments_and_cache_keys:
  "(\<forall>(k, x) \<in> set (readOptionals r).
      (k \<in> fst ` set (readArgs r) \<longleftrightarrow> truthy x) \<and>
      (truthy x \<longrightarrow> field (readArgs r) k = x)) \<and>
   ((\<nexists>eventId options. w = UpdateCalendarEvent eventId options) \<longrightarrow>
    (\<forall>(k, x) \<in> set (writeOptionals w).
      (k \<in> fst ` set (writeArgs w) \<longleftrightarrow> truthy x) \<and>
      (truthy x \<longrightarrow> field (writeArgs w) k = x))) \<and>
   (distinct (map fst options) \<and> ''eventId'' \<notin> fst ` set options \<longrightarrow>
    (\<forall>k. (k \<in> fst ` set (writeArgs (UpdateCalendarEvent eventId options)) \<longleftrightarrow>
            k = ''eventId'' \<or> k \<in> fst ` set options) \<and>
         field (writeArgs (UpdateCalendarEvent eventId options)) k =
           (if k = ''eventId'' then JStr eventId else field options k))) \<and>
   (distinct (map fst options) \<and> distinct (map fst options') \<and> set options = set options' \<longrightarrow>
      createCacheKey operation options = createCacheKey operation options') \<and>
   createCacheKey operation (filter (\<lambda>(k, v). v \<noteq> JUndefined) options) =
     createCacheKey operation options \<and>
   performRead env now r s =
     getOrFetch now (cacheKeyOf r) (callTool env (readTool r) (readArgs r)) (ttlOf r)
       (cacheDisabled s) s \<and>
   facadeCalls (snd (performWrite env w s)) = facadeCalls s @ [(writeTool w, writeArgs w)]"
proof -
  have reads: "\<forall>(k, x) \<in> set (readOptionals r).
      (k \<in> fst ` set (readArgs r) \<longleftrightarrow> truthy x) \<and>
      (truthy x \<longrightarrow> field (readArgs r) k = x)"
  proof (rule ballI)
    fix p assume "p \<in> set (readOptionals r)"
    then have "(fst p, snd p) \<in> set (readOptionals r)" by simp
    from read_optionals [OF this]
    show "case p of (k, x) \<Rightarrow>
      (k \<in> fst ` set (readArgs r) \<longleftrightarrow> truthy x) \<and>
      (truthy x \<longrightarrow> field (readArgs r) k = x)"
      by (simp add: case_prod_beta)
  qed
  have writes: "(\<nexists>eventId options. w = UpdateCalendarEvent eventId options) \<longrightarrow>
    (\<forall>(k, x) \<in> set (writeOptionals w).
      (k \<in> fst ` set (writeArgs w) \<longleftrightarrow> truthy x) \<and>
      (truthy x \<longrightarrow> field (writeArgs w) k = x))"
  proof (intro impI ballI)
    fix p
    assume other: "\<nexists>eventId options. w = UpdateCalendarEvent eventId options"
      and "p \<in> set (writeOptionals w)"
    then have "(fst p, snd p) \<in> set (writeOptionals w)" by simp
    from write_optionals [OF other this]
    show "case p of (k, x) \<Rightarrow>
      (k \<in> fst ` set (writeArgs w) \<longleftrightarrow> truthy x) \<and>
      (truthy x \<longrightarrow> field (writeArgs w) k = x)"
      by (simp add: case_prod_beta)
  qed
  have update: "distinct (map fst options) \<and> ''eventId'' \<notin> fst ` set options \<longrightarrow>
    (\<forall>k. (k \<in> fst ` set (writeArgs (UpdateCalendarEvent eventId options)) \<longleftrightarrow>
            k = ''eventId'' \<or> k \<in> fst ` set options) \<and>
         field (writeArgs (UpdateCalendarEvent eventId options)) k =
           (if k = ''eventId'' then JStr eventId else field options k))"
  proof (intro impI allI, elim conjE)
    fix k
    assume "distinct (map fst options)" and "''eventId'' \<notin> fst ` set options"
    then show "(k \<in> fst ` set (writeArgs (UpdateCalendarEvent eventId options)) \<longleftrightarrow>
            k = ''eventId'' \<or> k \<in> fst ` set options) \<and>
         field (writeArgs (UpdateCalendarEvent eventId options)) k =
           (if k = ''eventId'' then JStr eventId else field options k)"
      by (rule update_arguments)
  qed
  have order: "distinct (map fst options) \<and> distinct (map fst options') \<and>
      set options = set options' \<longrightarrow>
      createCacheKey operation options = createCacheKey operation options'"
  proof (intro impI, elim conjE)
    assume "distinct (map fst options)" "distinct (map fst options')" "set options = set options'"
    then show "createCacheKey operation options = createCacheKey operation options'"
      by (rule createCacheKey_order)
  qed
  show ?thesis
    by (rule conjI [OF reads conjI [OF writes conjI [OF update conjI [OF order
          conjI [OF createCacheKey_defined
            conjI [OF performRead_getOrFetch performWrite_facadeCalls]]]]]])
qed


theorem arguments_and_cache_keys_witness:
  "''top'' \<in> fst ` set (readArgs (ListMailMessages
      [(''orderBy'', JStr ''receivedDateTime desc''), (''top'', JNum 10), (''skip'', JUndefined)])) \<and>
   field (readArgs (ListMailMessages
      [(''orderBy'', JStr ''receivedDateTime desc''), (''top'', JNum 10), (''skip'', JUndefined)]))
      ''top'' = JNum 10 \<and>
   ''skip'' \<notin> fst ` set (readArgs (ListMailMessages
      [(''orderBy'', JStr ''receivedDateTime desc''), (''top'', JNum 10), (''skip'', JUndefined)])) \<and>
   ''cc'' \<in> fst ` set (writeArgs (SendMail ''a@b.com'' ''hi'' ''body'' [(''cc'', JStr ''c@d.com'')])) \<and>
   ''bodyType'' \<notin> fst ` set (writeArgs (SendMail ''a@b.com'' ''hi'' ''body''
      [(''cc'', JStr ''c@d.com'')])) \<and>
   ''start'' \<in> fst ` set (writeArgs (UpdateCalendarEvent ''e1'' subjectOnlyOptions)) \<and>
   field (writeArgs (UpdateCalendarEvent ''e1'' subjectOnlyOptions)) ''subject'' = JStr ''Standup'' \<and>
   createCacheKey ''mail_messages'' [(''top'', JNum 10), (''filter'', JStr ''isRead eq false'')] =
   createCacheKey ''mail_messages'' [(''filter'', JStr ''isRead eq false''), (''top'', JNum 10)]"
proof -
  let ?r = "ListMailMessages
      [(''orderBy'', JStr ''receivedDateTime desc''), (''top'', JNum 10), (''skip'', JUndefined)]"
  let ?w = "SendMail ''a@b.com'' ''hi'' ''body'' [(''cc'', JStr ''c@d.com'')]"
  let ?o = "[(''top'', JNum 10), (''filter'', JStr ''isRead eq false'')]"
  let ?o' = "[(''filter'', JStr ''isRead eq false''), (''top'', JNum 10)]"
  note all = arguments_and_cache_keys [where r = ?r and w = ?w and options = ?o and options' = ?o'
      and operation = "''mail_messages''"]
  note upd = arguments_and_cache_keys [where options = subjectOnlyOptions and eventId = "''e1''"]
  have top: "(''top'', JNum 10) \<in> set (readOptionals ?r) \<and> truthy (JNum 10)"
    by (simp add: given_def field_def)
  have skip: "(''skip'', JUndefined) \<in> set (readOptionals ?r) \<and> \<not> truthy JUndefined"
    by (simp add: given_def field_def)
  have cc: "(''cc'', JStr ''c@d.com'') \<in> set (writeOptionals ?w) \<and> truthy (JStr ''c@d.com'')"
    by (simp add: given_def field_def)
  have bt: "(''bodyType'', JUndefined) \<in> set (writeOptionals ?w)"
    by (simp add: given_def field_def)
  have notUpdate: "\<nexists>eventId options. ?w = UpdateCalendarEvent eventId options" by simp
  have wf: "distinct (map fst subjectOnlyOptions) \<and> ''eventId'' \<notin> fst ` set subjectOnlyOptions"
    by (simp add: subjectOnlyOptions_def)
  have has: "''start'' \<in> fst ` set subjectOnlyOptions \<and>
             field subjectOnlyOptions ''subject'' = JStr ''Standup''"
    by (simp add: subjectOnlyOptions_def field_def)
  have same: "distinct (map fst ?o) \<and> distinct (map fst ?o') \<and> set ?o = set ?o'"
    by auto
  note reads = all [THEN conjunct1]
  note writes = all [THEN conjunct2, THEN conjunct1, rule_format, OF notUpdate]
  note update = upd [THEN conjunct2, THEN conjunct2, THEN conjunct1, rule_format, OF wf]
  note order = all [THEN conjunct2, THEN conjunct2, THEN conjunct2, THEN conjunct1,
      rule_format, OF same]
  have a: "''top'' \<in> fst ` set (readArgs ?r) \<and> field (readArgs ?r) ''top'' = JNum 10"
    using bspec [OF reads, of "(''top'', JNum 10)"] top by simp
  have b: "''skip'' \<notin> fst ` set (readArgs ?r)"
    using bspec [OF reads, of "(''skip'', JUndefined)"] skip by simp
  have c: "''cc'' \<in> fst ` set (writeArgs ?w)"
    using writes [of "(''cc'', JStr ''c@d.com'')"] cc by simp
  have d: "''bodyType'' \<notin> fst ` set (writeArgs ?w)"
    using writes [of "(''bodyType'', JUndefined)"] bt by simp
  have e: "''start'' \<in> fst ` set (writeArgs (UpdateCalendarEvent ''e1'' subjectOnlyOptions)) \<and>
     field (writeArgs (UpdateCalendarEvent ''e1'' subjectOnlyOptions)) ''subject'' = JStr ''Standup''"
    using update [of "''start''"] update [of "''subject''"] has by simp
  have f: "createCacheKey ''mail_messages'' ?o = createCacheKey ''mail_messages'' ?o'"
    by (rule order)
  from a b c d e f show ?thesis by (intro conjI) (erule conjunct1 conjunct2 | assumption)+
qed

text \<open>
  The claim as stated has a key in the argument object if and only if the caller set the
  parameter. \<open>list-messages --skip 0\<close> sets \<open>skip\<close>, and the argument object passed to
  \<open>callTool\<close> is empty; \<open>update-event --id e1 --subject Standup\<close> leaves \<open>start\<close> unset, and
  the argument object has the key \<open>start\<close>, with the value undefined.
\<close>

theorem skip_zero_is_omitted:
  "field skipZeroOptions ''skip'' = JNum 0 \<and>
   facadeCalls (snd (listMailMessages demoServer 0 skipZeroOptions (newClient emptyCache))) =
     [(''list-mail-messages'', [])] \<and>
   field subjectOnlyOptions ''start'' = JUndefined \<and>
   facadeCalls (snd (updateCalendarEvent demoServer ''e1'' subjectOnlyOptions
                       (newClient emptyCache))) =
     [(''update-calendar-event'',
       [(''eventId'', JStr ''e1''), (''subject'', JStr ''Standup''), (''start'', JUndefined),
        (''end'', JUndefined), (''body'', JUndefined), (''location'', JUndefined),
        (''calendarId'', JUndefined)])]"
proof -
  let ?r = "ListMailMessages skipZeroOptions"
  let ?s = "newClient emptyCache"
  have none: "facadeCalls ?s = []" by (simp add: newClient_def)
  have "fst (performRead demoServer 0 ?r ?s) =
          fst (callTool demoServer (readTool ?r) (readArgs ?r) ?s)"
    by (rule read_miss_fst) (simp_all add: new_client_caching)
  then have ok: "fst (performRead demoServer 0 ?r ?s) = Inr (Parsed (JArray [JNumber 1, JNumber 2]))"
    by (simp add: demo_list_messages)
  have "facadeCalls (snd (performRead demoServer 0 ?r ?s)) =
          facadeCalls ?s @ [(readTool ?r, readArgs ?r)]"
    by (rule read_miss(1) [OF _ _ _ ok]) (simp_all add: new_client_caching)
  then have one: "facadeCalls (snd (listMailMessages demoServer 0 skipZeroOptions ?s)) =
                    [(''list-mail-messages'', [])]"
    by (simp add: none skipZeroOptions_def assignIfTruthy_def field_def)
  have two: "facadeCalls (snd (updateCalendarEvent demoServer ''e1'' subjectOnlyOptions ?s)) =
     [(''update-calendar-event'',
       [(''eventId'', JStr ''e1''), (''subject'', JStr ''Standup''), (''start'', JUndefined),
        (''end'', JUndefined), (''body'', JUndefined), (''location'', JUndefined),
        (''calendarId'', JUndefined)])]"
    using performWrite_facadeCalls [of demoServer "UpdateCalendarEvent ''e1'' subjectOnlyOptions" ?s]
    by (simp add: none spread_def subjectOnlyOptions_def)
  have three: "field skipZeroOptions ''skip'' = JNum 0 \<and> field subjectOnlyOptions ''start'' = JUndefined"
    by (simp add: skipZeroOptions_def subjectOnlyOptions_def field_def)
  from one two three show ?thesis by simp
qed

section \<open>Properties of the connection guard\<close>


lemma guardInv_stored:
  "guardInv g \<Longrightarrow> g_connectPromise g = Some p \<Longrightarrow>
     p < length (g_attempts g) \<and> (\<forall>err. g_attempts g ! p \<noteq> Rejected err)"
  unfolding guardInv_def by blast











lemma calm_step:
  "calm parse (e # evs) g \<longleftrightarrow>
     (e = CloseDone None \<longrightarrow> g_closing g = 0 \<or> quiet g) \<and> calm parse evs (settle parse e g)"
proof (cases e)
  case (CloseDone outcome)
  then show ?thesis by (cases outcome) simp_all
qed simp_all




text \<open>Attempts are only added, and a settled attempt keeps its outcome.\<close>

lemma rejectAttempt_keeps:
  "length (g_attempts (rejectAttempt p err g)) = length (g_attempts g)"
  "q \<noteq> p \<Longrightarrow> g_attempts (rejectAttempt p err g) ! q = g_attempts g ! q"
  by (simp_all add: rejectAttempt_def)












lemma failure_rejects:
  assumes "p < length (g_attempts g)"
  shows "(g_attempts g ! p = Handshaking \<longrightarrow>
            settle parse (HandshakeDone p (Some err)) g = rejectAttempt p err g) \<and>
         (g_attempts g ! p = Verifying \<longrightarrow>
            settle parse (VerifyDone p (Inl err)) g = rejectAttempt p err g) \<and>
         (g_attempts g ! p = Verifying \<and>
          \<not> authenticatedBy parse (orElse (findText (content result)) []) \<longrightarrow>
            settle parse (VerifyDone p (Inr result)) g =
              rejectAttempt p (Error authRequiredMessage) g)"
  using assms by (simp add: handshakeDone_def verifyDone_def)


text \<open>A run without a completed \<open>disconnect()\<close> is calm.\<close>

lemma calm_without_close: "CloseDone None \<notin> set evs \<Longrightarrow> calm parse evs g"
  by (induction evs arbitrary: g) (auto simp add: calm_step)







section \<open>Claim C3\<close>




end
